theory Spec2Isabelle
  imports Main "HOL-Library.AList"
begin

section \<open>JSON values and the JavaScript operations applied to them\<close>

text \<open>
  The configuration document is whatever \<^verbatim>\<open>JSON.parse\<close> delivers, so it is modelled as an
  untyped JSON value. An object is an association list in property enumeration order;
  \<open>AList.update\<close> is a JavaScript property assignment (an existing key keeps its place, a
  new key is added at the end) and \<open>map_of\<close> is a property read (\<open>None\<close> is
  \<^verbatim>\<open>undefined\<close>). Numbers only matter through their truthiness and are kept as integers.
\<close>

datatype json =
    JNull
  | JBool bool
  | JNum int
  | JStr string
  | JArr "json list"
  | JObj "(string \<times> json) list"

fun truthy :: "json \<Rightarrow> bool" where
  "truthy JNull = False"
| "truthy (JBool b) = b"
| "truthy (JNum n) = (n \<noteq> 0)"
| "truthy (JStr s) = (s \<noteq> [])"
| "truthy (JArr xs) = True"
| "truthy (JObj fs) = True"

definition truthyProp :: "json option \<Rightarrow> bool" where
  "truthyProp v = (case v of None \<Rightarrow> False | Some x \<Rightarrow> truthy x)"

text \<open>\<^verbatim>\<open>x || d\<close> on a property read.\<close>

definition orDefault :: "json option \<Rightarrow> json \<Rightarrow> json" where
  "orDefault v d = (case v of None \<Rightarrow> d | Some x \<Rightarrow> if truthy x then x else d)"

section \<open>Errors, events and the world\<close>

datatype error =
    UserError string string
  | TypeError
  | FsError string

datatype completion = Returned | Threw error

text \<open>
  How the external toolchain process ends, and how a promise settles. The reason of a
  rejection is the object whose \<^verbatim>\<open>code\<close> the handlers of lines 97 and 117 print, or
  whatever a rejected editor command gives.
\<close>

datatype process_result = Exited int | LaunchFailed int

datatype reason = ProcessFailure int | CommandFailure string

datatype outcome = Resolved | Rejected reason

datatype event =
    NotifyUserError string string
  | ChannelShow
  | ChannelStart string
  | ChannelEnd string
  | ChannelError string
  | ExecuteCommand string string
  | CommandCompleted string string
  | Spawn string bool "string list"

record board =
  packageName :: string
  architecture :: string
  boardId :: string
  rootBoardPath :: string

text \<open>
  Everything \<^verbatim>\<open>ArduinoApp\<close> reads but does not own: the settings object, the device
  context, the board manager's current board, the constants module, the workspace root,
  and the platform functions of Node (\<^verbatim>\<open>path\<close>, \<^verbatim>\<open>JSON\<close>, \<^verbatim>\<open>os.EOL\<close>), which are
  parameters because their code is not part of the repository. \<open>JSON_parse\<close> is \<open>None\<close>
  where \<^verbatim>\<open>JSON.parse\<close> raises a syntax error. \<open>runProcess\<close> is what the toolchain binary
  does with a command line, and \<open>commandFailure\<close> says whether an editor command
  (\<^verbatim>\<open>vscode.commands.executeCommand\<close>) rejects, and with what. The board manager is taken
  as assigned, so \<open>currentBoard\<close> is its \<^verbatim>\<open>currentBoard\<close> property, \<open>None\<close> when no board
  is selected.
\<close>

record env =
  rootPath :: string
  CPP_CONFIG_FILE :: string
  ARDUINO_FILE_ERROR :: string
  NO_BOARD_SELECTED :: string
  cppConfigPlatform :: string
  currentBoard :: "board option"
  path_join :: "string list \<Rightarrow> string"
  path_dirname :: "string \<Rightarrow> string"
  path_normalize :: "string \<Rightarrow> string"
  path_resolve :: "string \<Rightarrow> string"
  JSON_parse :: "string \<Rightarrow> json option"
  JSON_stringify :: "json \<Rightarrow> string"
  EOL :: string
  commandPath :: string
  packagePath :: string
  logLevel :: string
  sketch :: string
  port :: string
  runProcess :: "string \<Rightarrow> string list \<Rightarrow> process_result"
  commandFailure :: "string \<Rightarrow> string \<Rightarrow> string option"

text \<open>
  The mutable surroundings: file contents by path, directory listings by path (\<open>None\<close>:
  no such file or directory), the directories handed to \<^verbatim>\<open>mkdirRecursivelySync\<close>, the
  user-visible events in the order they happen, and the \<^verbatim>\<open>_preferences\<close> field of the
  application object. The listings are only read: they describe the installed toolchain,
  and what \<^verbatim>\<open>mkdirRecursivelySync\<close> (not among the sources) does is kept in \<open>mkdirs\<close>.
\<close>

record world =
  files :: "string \<Rightarrow> string option"
  dirs :: "string \<Rightarrow> string list option"
  mkdirs :: "string list"
  trace :: "event list"
  cachedPreferences :: "(string \<times> string) list option"

section \<open>addLibPath\<close>

text \<open>
  Modelled from the spec: \<^verbatim>\<open>util.tryParseJSON\<close> (the module \<^verbatim>\<open>common/util\<close> is not among
  the sources). The spec's step 2 parses the text as JSON and treats a failure as fatal;
  the caller tests the result with \<^verbatim>\<open>!deviceContext\<close>, so a failure is some falsy value.
\<close>

definition tryParseJSON :: "env \<Rightarrow> string \<Rightarrow> json" where
  "tryParseJSON env text = (case JSON_parse env text of None \<Rightarrow> JBool False | Some v \<Rightarrow> v)"

text \<open>\<^verbatim>\<open>path.resolve(path.normalize(p))\<close>, the deduplication key of lines 161 and 164.\<close>

definition resolved :: "env \<Rightarrow> string \<Rightarrow> string" where
  "resolved env p = path_resolve env (path_normalize env p)"

definition configFilePath :: "env \<Rightarrow> string" where
  "configFilePath env = path_join env [rootPath env, CPP_CONFIG_FILE env]"

text \<open>Lines 211 to 227.\<close>

definition getDefaultPackageLibPaths :: "env \<Rightarrow> world \<Rightarrow> string list" where
  "getDefaultPackageLibPaths env w =
     (case currentBoard env of
        None \<Rightarrow> []
      | Some boardDescriptor \<Rightarrow>
          (let toolsPath = rootBoardPath boardDescriptor
           in case dirs w (path_join env [toolsPath, ''cores'']) of
                None \<Rightarrow> []
              | Some coreLibs \<Rightarrow>
                  map (\<lambda>coreLib. path_normalize env (path_join env [toolsPath, ''cores'', coreLib]))
                    coreLibs))"

text \<open>
  The \<^verbatim>\<open>for ... of\<close> loop of lines 163 to 167 over a non-empty array: \<open>Inr True\<close> is the
  early \<^verbatim>\<open>return\<close>. Node's \<^verbatim>\<open>path.normalize\<close> raises a \<^verbatim>\<open>TypeError\<close> on an entry that
  is not a string.
\<close>

fun findExisting :: "env \<Rightarrow> string \<Rightarrow> json list \<Rightarrow> error + bool" where
  "findExisting env c [] = Inr False"
| "findExisting env c (JStr e # es) =
     (if c = resolved env e then Inr True else findExisting env c es)"
| "findExisting env c (x # es) = Inl TypeError"

text \<open>
  The callback of \<^verbatim>\<open>libPaths.forEach\<close> (lines 160 to 172) on the fields of the section
  \<^verbatim>\<open>configSection\<close>. What \<^verbatim>\<open>includePath && includePath.length\<close> yields depends on the
  kind of value found there:
  \<^item> absent, falsy, a number, \<^verbatim>\<open>true\<close> or an empty array: the \<^verbatim>\<open>else\<close> branch replaces it by
    a fresh array, and the candidate is pushed;
  \<^item> a non-empty array: the loop above, then the push;
  \<^item> a non-empty string: the loop runs over its characters, and \<^verbatim>\<open>push\<close> is not a function
    of a string;
  \<^item> an object: its own \<^verbatim>\<open>length\<close> property decides; a plain object is not iterable.
\<close>

definition addChildLibPath ::
  "env \<Rightarrow> (string \<times> json) list \<Rightarrow> string \<Rightarrow> error + (string \<times> json) list" where
  "addChildLibPath env sec childLibPath =
     (let c = resolved env childLibPath;
          fresh = Inr (AList.update ''includePath'' (JArr [JStr c]) sec)
      in case map_of sec ''includePath'' of
           None \<Rightarrow> fresh
         | Some (JArr []) \<Rightarrow> fresh
         | Some (JArr (e # es)) \<Rightarrow>
             (case findExisting env c (e # es) of
                Inl err \<Rightarrow> Inl err
              | Inr True \<Rightarrow> Inr sec
              | Inr False \<Rightarrow>
                  Inr (AList.update ''includePath'' (JArr ((e # es) @ [JStr c])) sec))
         | Some (JStr s) \<Rightarrow>
             (if s = [] then fresh
              else if list_ex (\<lambda>ch. c = resolved env [ch]) s then Inr sec
              else Inl TypeError)
         | Some (JObj os) \<Rightarrow>
             (if truthyProp (map_of os ''length'') then Inl TypeError else fresh)
         | Some JNull \<Rightarrow> fresh
         | Some (JBool b) \<Rightarrow> fresh
         | Some (JNum n) \<Rightarrow> fresh)"

fun mergeLibPaths ::
  "env \<Rightarrow> (string \<times> json) list \<Rightarrow> string list \<Rightarrow> error + (string \<times> json) list" where
  "mergeLibPaths env sec [] = Inr sec"
| "mergeLibPaths env sec (p # ps) =
     (case addChildLibPath env sec p of
        Inl err \<Rightarrow> Inl err
      | Inr sec' \<Rightarrow> mergeLibPaths env sec' ps)"

text \<open>
  Lines 146 and 147 on a matching section. The module is strict code, so assigning a
  property to a number, a string or \<^verbatim>\<open>true\<close> raises; a property assigned to an array
  is not an index and \<^verbatim>\<open>JSON.stringify\<close> leaves it out.
\<close>

definition forceBrowse :: "(string \<times> json) list \<Rightarrow> error + (string \<times> json) list" where
  "forceBrowse sec =
     (case orDefault (map_of sec ''browse'') (JObj []) of
        JObj bs \<Rightarrow>
          Inr (AList.update ''browse''
                 (JObj (AList.update ''limitSymbolsToIncludedHeaders'' (JBool False) bs)) sec)
      | JArr xs \<Rightarrow> Inr (AList.update ''browse'' (JArr xs) sec)
      | JNull \<Rightarrow> Inl TypeError
      | JBool b \<Rightarrow> Inl TypeError
      | JNum n \<Rightarrow> Inl TypeError
      | JStr s \<Rightarrow> Inl TypeError)"

text \<open>
  \<^verbatim>\<open>section.name === util.getCppConfigPlatform()\<close> of line 144, for a section that is
  not \<^verbatim>\<open>null\<close>: only an object can have a \<^verbatim>\<open>name\<close>.
\<close>

definition isPlatformSection :: "env \<Rightarrow> json \<Rightarrow> bool" where
  "isPlatformSection env s =
     (case s of
        JObj sec \<Rightarrow> map_of sec ''name'' = Some (JStr (cppConfigPlatform env))
      | _ \<Rightarrow> False)"

text \<open>The callback of \<^verbatim>\<open>configurations.forEach\<close>, lines 143 to 149.\<close>

definition visitSection :: "env \<Rightarrow> json \<Rightarrow> error + json" where
  "visitSection env s =
     (case s of
        JNull \<Rightarrow> Inl TypeError
      | JObj sec \<Rightarrow>
          (if isPlatformSection env s
           then (case forceBrowse sec of Inl err \<Rightarrow> Inl err | Inr sec' \<Rightarrow> Inr (JObj sec'))
           else Inr s)
      | _ \<Rightarrow> Inr s)"

text \<open>
  The whole \<^verbatim>\<open>forEach\<close>: the sections as the callback leaves them, and the position of the
  section that \<^verbatim>\<open>configSection\<close> refers to afterwards. Every match assigns the variable
  again, so the position is that of the match visited last.
\<close>

fun scanSections :: "env \<Rightarrow> json list \<Rightarrow> error + (json list \<times> nat option)" where
  "scanSections env [] = Inr ([], None)"
| "scanSections env (s # ss) =
     (case visitSection env s of
        Inl err \<Rightarrow> Inl err
      | Inr s' \<Rightarrow>
          (case scanSections env ss of
             Inl err \<Rightarrow> Inl err
           | Inr (ss', later) \<Rightarrow>
               Inr (s' # ss',
                    case later of
                      Some j \<Rightarrow> Some (Suc j)
                    | None \<Rightarrow> if isPlatformSection env s then Some 0 else None)))"

text \<open>The object literal of lines 152 to 156.\<close>

definition newSection :: "env \<Rightarrow> (string \<times> json) list" where
  "newSection env =
     [(''name'', JStr (cppConfigPlatform env)),
      (''includePath'', JArr []),
      (''browse'', JObj [(''limitSymbolsToIncludedHeaders'', JBool False)])]"

text \<open>
  Lines 151 to 158: the sections and the position of \<^verbatim>\<open>configSection\<close> once a section
  has been created where the scan found none.
\<close>

definition ensureSection :: "env \<Rightarrow> json list \<Rightarrow> nat option \<Rightarrow> json list \<times> nat" where
  "ensureSection env secs found =
     (case found of
        Some i \<Rightarrow> (secs, i)
      | None \<Rightarrow> (secs @ [JObj (newSection env)], length secs))"

text \<open>
  Lines 143 to 172 on the array \<^verbatim>\<open>deviceContext.configurations\<close>. \<^verbatim>\<open>configSection\<close> is a
  reference into that array, which the model keeps as a position; the section there is
  always an object, the last branch only closes the case distinction.
\<close>

definition reconcileSections :: "env \<Rightarrow> string list \<Rightarrow> json list \<Rightarrow> error + json list" where
  "reconcileSections env libPaths secs =
     (case scanSections env secs of
        Inl err \<Rightarrow> Inl err
      | Inr (secs1, found) \<Rightarrow>
          (case ensureSection env secs1 found of
             (secs2, i) \<Rightarrow>
               (case secs2 ! i of
                  JObj sec \<Rightarrow>
                    (case mergeLibPaths env sec libPaths of
                       Inl err \<Rightarrow> Inl err
                     | Inr sec' \<Rightarrow> Inr (secs2[i := JObj sec']))
                | _ \<Rightarrow> Inl TypeError)))"

text \<open>
  Lines 141 to 172 on the parsed value, giving the value that \<^verbatim>\<open>JSON.stringify\<close> sees.
  A top-level array takes \<^verbatim>\<open>configurations\<close> as a property that is not an index: the
  rest runs on a fresh section and cannot raise, and the array is serialised as it was.
  Any other truthy value cannot hold the property, and reading \<^verbatim>\<open>forEach\<close> from a
  \<^verbatim>\<open>configurations\<close> value that is not an array does not give a function.
\<close>

definition reconcile :: "env \<Rightarrow> string list \<Rightarrow> json \<Rightarrow> error + json" where
  "reconcile env libPaths deviceContext =
     (case deviceContext of
        JObj doc \<Rightarrow>
          (case orDefault (map_of doc ''configurations'') (JArr []) of
             JArr secs \<Rightarrow>
               (case reconcileSections env libPaths secs of
                  Inl err \<Rightarrow> Inl err
                | Inr secs' \<Rightarrow>
                    Inr (JObj (AList.update ''configurations'' (JArr secs') doc)))
           | _ \<Rightarrow> Inl TypeError)
      | JArr xs \<Rightarrow> Inr (JArr xs)
      | _ \<Rightarrow> Inl TypeError)"

text \<open>Lines 122 to 127.\<close>

definition libPathsFor :: "env \<Rightarrow> string \<Rightarrow> world \<Rightarrow> string list" where
  "libPathsFor env libraryPath w =
     (if libraryPath \<noteq> [] then [libraryPath] else getDefaultPackageLibPaths env w)"

text \<open>
  Lines 121 to 175. Lines 131 to 136 are split into what they do to the world (the parent
  directory is made when the file is missing) and the value they give \<^verbatim>\<open>deviceContext\<close>.
  \<^verbatim>\<open>Logger.notifyAndThrowUserError\<close> is not among the sources; by its name and the spec's
  step 2 it notifies the user and raises.
\<close>

definition loadDocument :: "env \<Rightarrow> world \<Rightarrow> json" where
  "loadDocument env w =
     (case files w (configFilePath env) of
        None \<Rightarrow> JObj []
      | Some text \<Rightarrow> tryParseJSON env text)"

definition prepareDirectory :: "env \<Rightarrow> world \<Rightarrow> world" where
  "prepareDirectory env w =
     (case files w (configFilePath env) of
        None \<Rightarrow> w\<lparr>mkdirs := mkdirs w @ [path_dirname env (configFilePath env)]\<rparr>
      | Some text \<Rightarrow> w)"

definition addLibPath :: "env \<Rightarrow> string \<Rightarrow> world \<Rightarrow> completion \<times> world" where
  "addLibPath env libraryPath w =
     (let libPaths = libPathsFor env libraryPath w;
          w1 = prepareDirectory env w;
          deviceContext = loadDocument env w
      in if \<not> truthy deviceContext
         then (Threw (UserError ''arduinoFileError'' (ARDUINO_FILE_ERROR env)),
               w1\<lparr>trace := trace w1 @
                     [NotifyUserError ''arduinoFileError'' (ARDUINO_FILE_ERROR env)]\<rparr>)
         else (case reconcile env libPaths deviceContext of
                 Inl err \<Rightarrow> (Threw err, w1)
               | Inr doc \<Rightarrow>
                   (Returned,
                    w1\<lparr>files := (files w1)(configFilePath env \<mapsto> JSON_stringify env doc)\<rparr>)))"

section \<open>Preferences\<close>

text \<open>\<^verbatim>\<open>rawText.split("\\n")\<close>: a text without a line feed is one line, also when empty.\<close>

fun splitLines :: "string \<Rightarrow> string list" where
  "splitLines [] = [[]]"
| "splitLines (c # cs) =
     (if c = CHR 0x0A then [] # splitLines cs
      else (case splitLines cs of
              [] \<Rightarrow> [[c]]
            | l # ls \<Rightarrow> (c # l) # ls))"

text \<open>The class \<^verbatim>\<open>\\s\<close> on text within ASCII.\<close>

definition isSpace :: "char \<Rightarrow> bool" where
  "isSpace c = (c \<in> {CHR 0x20, CHR 0x09, CHR 0x0A, CHR 0x0B, CHR 0x0C, CHR 0x0D})"

text \<open>The maximal runs of characters that are not white space, from left to right.\<close>

fun splitWords :: "string \<Rightarrow> string \<Rightarrow> string list" where
  "splitWords cur [] = (if cur = [] then [] else [rev cur])"
| "splitWords cur (c # cs) =
     (if isSpace c
      then (if cur = [] then splitWords [] cs else rev cur # splitWords [] cs)
      else splitWords (c # cur) cs)"

text \<open>
  \<^verbatim>\<open>/(\\S+)=(\\S+)/\<close> inside one run: both groups are greedy, so the first group ends at
  the last \<^verbatim>\<open>=\<close> that has a character on each side.
\<close>

definition matchWord :: "string \<Rightarrow> (string \<times> string) option" where
  "matchWord word =
     (case filter (\<lambda>j. word ! j = CHR ''='') [1 ..< length word - 1] of
        [] \<Rightarrow> None
      | j # js \<Rightarrow> Some (take (last (j # js)) word, drop (Suc (last (j # js))) word))"

text \<open>
  \<^verbatim>\<open>lineRegex.exec(line)\<close>: a match lies within one run, and the leftmost match starts
  at the beginning of the first run that has one.
\<close>

fun firstMatch :: "string list \<Rightarrow> (string \<times> string) option" where
  "firstMatch [] = None"
| "firstMatch (word # rest) =
     (case matchWord word of
        None \<Rightarrow> firstMatch rest
      | Some kv \<Rightarrow> Some kv)"

definition lineRegex_exec :: "string \<Rightarrow> (string \<times> string) option" where
  "lineRegex_exec line = firstMatch (splitWords [] line)"

text \<open>The callback of \<^verbatim>\<open>lines.forEach\<close>, lines 250 to 257, on the map built so far.\<close>

definition addPreferenceLine :: "(string \<times> string) list \<Rightarrow> string \<Rightarrow> (string \<times> string) list" where
  "addPreferenceLine prefs line =
     (if line \<noteq> []
      then (case lineRegex_exec line of
              None \<Rightarrow> prefs
            | Some (k, v) \<Rightarrow> AList.update k v prefs)
      else prefs)"

definition preferencesPath :: "env \<Rightarrow> string" where
  "preferencesPath env = path_join env [packagePath env, ''preferences.txt'']"

text \<open>
  Lines 244 to 258. The field is assigned the new map on line 245, before the file is
  read on line 248; \<^verbatim>\<open>fs.readFileSync\<close> raises when the file cannot be read.
\<close>

definition loadPreferences :: "env \<Rightarrow> world \<Rightarrow> completion \<times> world" where
  "loadPreferences env w =
     (let w1 = w\<lparr>cachedPreferences := Some []\<rparr>
      in case files w1 (preferencesPath env) of
           None \<Rightarrow> (Threw (FsError (preferencesPath env)), w1)
         | Some rawText \<Rightarrow>
             (Returned,
              w1\<lparr>cachedPreferences :=
                    Some (foldl addPreferenceLine [] (splitLines rawText))\<rparr>))"

text \<open>The getter of lines 229 to 234; it returns the field as it is after the load.\<close>

definition preferences :: "env \<Rightarrow> world \<Rightarrow> (error + (string \<times> string) list option) \<times> world" where
  "preferences env w =
     (case cachedPreferences w of
        None \<Rightarrow>
          (case loadPreferences env w of
             (Threw err, w1) \<Rightarrow> (Inl err, w1)
           | (Returned, w1) \<Rightarrow> (Inr (cachedPreferences w1), w1))
      | Some prefs \<Rightarrow> (Inr (Some prefs), w))"

section \<open>Operations that run the toolchain\<close>

definition emit :: "event list \<Rightarrow> world \<Rightarrow> world" where
  "emit evs w = w\<lparr>trace := trace w @ evs\<rparr>"

text \<open>The decimal text of a number in a template literal.\<close>

fun showNat :: "nat \<Rightarrow> string" where
  "showNat n =
     (if n < 10 then [''0123456789'' ! n]
      else showNat (n div 10) @ [''0123456789'' ! (n mod 10)])"

declare showNat.simps [simp del]

definition showInt :: "int \<Rightarrow> string" where
  "showInt i = (if i < 0 then ''-'' @ showNat (nat (- i)) else showNat (nat i))"

text \<open>
  Modelled from the spec: \<^verbatim>\<open>util.spawn\<close> (the module \<^verbatim>\<open>common/util\<close> is not among the
  sources). By the spec's section 4.3 it runs the binary once and settles when the process
  ends: exit code 0 resolves, a non-zero exit or a failure to launch rejects with the
  code. The flag records whether an output channel was passed.
\<close>

definition spawn :: "env \<Rightarrow> string \<Rightarrow> bool \<Rightarrow> string list \<Rightarrow> world \<Rightarrow> outcome \<times> world" where
  "spawn env command withChannel args w =
     (case runProcess env command args of
        Exited code \<Rightarrow>
          if code = 0 then Resolved else Rejected (ProcessFailure code)
      | LaunchFailed code \<Rightarrow> Rejected (ProcessFailure code),
      emit [Spawn command withChannel args] w)"

text \<open>
  An awaited \<^verbatim>\<open>vscode.commands.executeCommand\<close>: the call, and its completion when the
  command does not reject.
\<close>

definition executeCommand :: "env \<Rightarrow> string \<Rightarrow> string \<Rightarrow> world \<Rightarrow> outcome \<times> world" where
  "executeCommand env command arg w =
     (case commandFailure env command arg of
        Some msg \<Rightarrow> (Rejected (CommandFailure msg), emit [ExecuteCommand command arg] w)
      | None \<Rightarrow>
          (Resolved, emit [ExecuteCommand command arg, CommandCompleted command arg] w))"

definition reasonCode :: "reason \<Rightarrow> string" where
  "reasonCode r =
     (case r of
        ProcessFailure code \<Rightarrow> showInt code
      | CommandFailure msg \<Rightarrow> ''undefined'')"

text \<open>
  Lines 260 to 268. \<^verbatim>\<open>Logger.notifyUserError\<close> is not among the sources; by its name and
  the spec's section 4.2 it shows the error to the user and returns.
\<close>

definition getBoardDescriptorString :: "env \<Rightarrow> world \<Rightarrow> string option \<times> world" where
  "getBoardDescriptorString env w =
     (case currentBoard env of
        None \<Rightarrow>
          (None, emit [NotifyUserError ''getBoardDescriptorError'' (NO_BOARD_SELECTED env)] w)
      | Some boardDescriptor \<Rightarrow>
          (Some (packageName boardDescriptor @ '':'' @ architecture boardDescriptor @ '':'' @
                 boardId boardDescriptor), w))"

definition toolArgs :: "env \<Rightarrow> string \<Rightarrow> string \<Rightarrow> string list" where
  "toolArgs env mode boardDescriptor =
     [mode, ''--board'', boardDescriptor, ''--port'', port env,
      path_join env [rootPath env, sketch env]] @
     (if logLevel env = ''verbose'' then [''--verbose''] else [])"

text \<open>Lines 77 to 99.\<close>

definition upload :: "env \<Rightarrow> world \<Rightarrow> outcome \<times> world" where
  "upload env w =
     (case getBoardDescriptorString env w of
        (None, w1) \<Rightarrow> (Resolved, w1)
      | (Some boardDescriptor, w1) \<Rightarrow>
          if boardDescriptor = [] then (Resolved, w1)
          else
            (let w2 = emit [ChannelShow, ChannelStart (''Upload sketch - '' @ sketch env)] w1
             in case executeCommand env ''arduino.closeSerialMonitor'' (port env) w2 of
                  (Rejected r, w3) \<Rightarrow> (Rejected r, w3)
                | (Resolved, w3) \<Rightarrow>
                    (case spawn env (commandPath env) True
                            (toolArgs env ''--upload'' boardDescriptor) w3 of
                       (Resolved, w4) \<Rightarrow>
                         (Resolved,
                          emit [ChannelEnd (''Uploaded the sketch: '' @ sketch env @ EOL env)] w4)
                     | (Rejected r, w4) \<Rightarrow>
                         (Resolved,
                          emit [ChannelError (''Exit with code='' @ reasonCode r @ EOL env)] w4))))"

text \<open>Lines 101 to 119.\<close>

definition verify :: "env \<Rightarrow> world \<Rightarrow> outcome \<times> world" where
  "verify env w =
     (case getBoardDescriptorString env w of
        (None, w1) \<Rightarrow> (Resolved, w1)
      | (Some boardDescriptor, w1) \<Rightarrow>
          if boardDescriptor = [] then (Resolved, w1)
          else
            (let w2 = emit [ChannelStart (''Verify sketch - '' @ sketch env), ChannelShow] w1
             in case spawn env (commandPath env) True
                       (toolArgs env ''--verify'' boardDescriptor) w2 of
                  (Resolved, w3) \<Rightarrow>
                    (Resolved,
                     emit [ChannelEnd (''Finished verify sketch - '' @ sketch env @ EOL env)] w3)
                | (Rejected r, w3) \<Rightarrow>
                    (Resolved,
                     emit [ChannelError (''Exit with code='' @ reasonCode r @ EOL env)] w3)))"

text \<open>The version segment of lines 185 and 200: an empty version stays empty.\<close>

definition versionSuffix :: "string \<Rightarrow> string" where
  "versionSuffix version = (if version \<noteq> [] then '':'' @ version else version)"

text \<open>Lines 180 to 187. The awaited promise has no handler: a rejection leaves the function.\<close>

definition installBoard ::
  "env \<Rightarrow> string \<Rightarrow> string \<Rightarrow> string \<Rightarrow> bool \<Rightarrow> world \<Rightarrow> outcome \<times> world" where
  "installBoard env package arch version showOutput w =
     (let w1 = emit [ChannelShow, ChannelStart (''Install package - '' @ package @ ''...'')] w
      in case spawn env (commandPath env) showOutput
                [''--install-boards'', package @ '':'' @ arch @ versionSuffix version] w1 of
           (Rejected r, w2) \<Rightarrow> (Rejected r, w2)
         | (Resolved, w2) \<Rightarrow>
             (Resolved,
              emit [ChannelEnd (''Installed board package - '' @ package @ EOL env)] w2))"

text \<open>Lines 195 to 203.\<close>

definition installLibrary ::
  "env \<Rightarrow> string \<Rightarrow> string \<Rightarrow> bool \<Rightarrow> world \<Rightarrow> outcome \<times> world" where
  "installLibrary env libName version showOutput w =
     (let w1 = emit [ChannelShow, ChannelStart (''Install library - '' @ libName)] w
      in case spawn env (commandPath env) showOutput
                [''--install-library'', libName @ versionSuffix version] w1 of
           (Rejected r, w2) \<Rightarrow> (Rejected r, w2)
         | (Resolved, w2) \<Rightarrow>
             (Resolved, emit [ChannelEnd (''Installed libarray - '' @ libName @ EOL env)] w2))"

definition isSpawn :: "event \<Rightarrow> bool" where
  "isSpawn e = (case e of Spawn command withChannel args \<Rightarrow> True | _ \<Rightarrow> False)"

section \<open>Functions of the specification\<close>

text \<open>
  Step 6 of the spec's algorithm on a list of path strings, in the spec's words: a
  candidate whose normalised form some entry already normalises to is skipped, any other
  is appended in its normalised form. \<open>r\<close> is the normalisation.
\<close>

fun mergedPaths :: "(string \<Rightarrow> string) \<Rightarrow> string list \<Rightarrow> string list \<Rightarrow> string list" where
  "mergedPaths r xs [] = xs"
| "mergedPaths r xs (c # cs) =
     mergedPaths r (if \<exists>e\<in>set xs. r e = r c then xs else xs @ [r c]) cs"

text \<open>The position of the last section that carries the platform's name.\<close>

fun lastPlatformIndex :: "env \<Rightarrow> json list \<Rightarrow> nat option" where
  "lastPlatformIndex env [] = None"
| "lastPlatformIndex env (s # ss) =
     (case lastPlatformIndex env ss of
        Some j \<Rightarrow> Some (Suc j)
      | None \<Rightarrow> if isPlatformSection env s then Some 0 else None)"

text \<open>A property of a section, \<open>None\<close> where the section is not an object or lacks it.\<close>

definition sectionField :: "string \<Rightarrow> json \<Rightarrow> json option" where
  "sectionField k s = (case s of JObj sec \<Rightarrow> map_of sec k | _ \<Rightarrow> None)"

text \<open>
  The \<^verbatim>\<open>includePath\<close> of the section that a reconciliation of the stored file treats as
  active.
\<close>

definition activeIncludePath :: "env \<Rightarrow> world \<Rightarrow> json option" where
  "activeIncludePath env w =
     (case loadDocument env w of
        JObj doc \<Rightarrow>
          (case map_of doc ''configurations'' of
             Some (JArr secs) \<Rightarrow>
               (case lastPlatformIndex env secs of
                  Some i \<Rightarrow> sectionField ''includePath'' (secs ! i)
                | None \<Rightarrow> None)
           | _ \<Rightarrow> None)
      | _ \<Rightarrow> None)"

text \<open>The candidate is found among the entries, so that the callback returns early.\<close>

definition present :: "env \<Rightarrow> (string \<times> json) list \<Rightarrow> string \<Rightarrow> bool" where
  "present env sec c =
     (case map_of sec ''includePath'' of
        Some (JArr (e # es)) \<Rightarrow> findExisting env (resolved env c) (e # es) = Inr True
      | Some (JStr s) \<Rightarrow> s \<noteq> [] \<and> list_ex (\<lambda>ch. resolved env c = resolved env [ch]) s
      | _ \<Rightarrow> False)"

section \<open>A concrete host\<close>

text \<open>
  A small POSIX-like host on which the model is evaluated: paths are joined with a slash
  and resolved against the working directory \<^verbatim>\<open>/w\<close>, and the JSON functions are given by
  a finite table of documents with their texts.
\<close>

fun posixJoin :: "string list \<Rightarrow> string" where
  "posixJoin [] = ''.''"
| "posixJoin [p] = p"
| "posixJoin (p # ps) = p @ ''/'' @ posixJoin ps"

text \<open>
  Of \<^verbatim>\<open>path.normalize\<close> the host has the removal of leading \<^verbatim>\<open>./\<close> segments, so that
  \<^verbatim>\<open>./lib\<close> and \<^verbatim>\<open>lib\<close> name the same directory.
\<close>

fun posixNormalize :: "string \<Rightarrow> string" where
  "posixNormalize (CHR ''.'' # CHR ''/'' # p) = posixNormalize p"
| "posixNormalize p = p"

definition posixResolve :: "string \<Rightarrow> string" where
  "posixResolve p = (if take 1 p = ''/'' then p else ''/w/'' @ p)"

definition posixDirname :: "string \<Rightarrow> string" where
  "posixDirname p = rev (drop 1 (dropWhile (\<lambda>c. c \<noteq> CHR ''/'') (rev p)))"

definition tableStringify :: "(json \<times> string) list \<Rightarrow> json \<Rightarrow> string" where
  "tableStringify tbl d = (case map_of tbl d of Some t \<Rightarrow> t | None \<Rightarrow> ''null'')"

definition tableParse :: "(json \<times> string) list \<Rightarrow> string \<Rightarrow> json option" where
  "tableParse tbl t = map_of (map (\<lambda>(d, t). (t, d)) tbl) t"

definition unoBoard :: board where
  "unoBoard = \<lparr>packageName = ''arduino'', architecture = ''avr'', boardId = ''uno'',
     rootBoardPath = ''/opt/arduino/hardware/avr''\<rparr>"

definition demoEnv ::
  "(json \<times> string) list \<Rightarrow> board option \<Rightarrow> process_result \<Rightarrow> env" where
  "demoEnv tbl selected result =
     \<lparr>rootPath = ''/w'',
      CPP_CONFIG_FILE = ''.vscode/c_cpp_properties.json'',
      ARDUINO_FILE_ERROR = ''arduino.json file error'',
      NO_BOARD_SELECTED = ''no board selected'',
      cppConfigPlatform = ''Linux'',
      currentBoard = selected,
      path_join = posixJoin,
      path_dirname = posixDirname,
      path_normalize = posixNormalize,
      path_resolve = posixResolve,
      JSON_parse = tableParse tbl,
      JSON_stringify = tableStringify tbl,
      EOL = [CHR 0x0A],
      commandPath = ''/opt/arduino/arduino'',
      packagePath = ''/home/u/.arduino15'',
      logLevel = ''info'',
      sketch = ''app.ino'',
      port = ''/dev/ttyUSB0'',
      runProcess = (\<lambda>command args. result),
      commandFailure = (\<lambda>command arg. None)\<rparr>"

definition emptyWorld :: world where
  "emptyWorld = \<lparr>files = Map.empty, dirs = Map.empty, mkdirs = [], trace = [],
     cachedPreferences = None\<rparr>"

definition platformSection :: "json list \<Rightarrow> json" where
  "platformSection paths =
     JObj [(''name'', JStr ''Linux''),
           (''includePath'', JArr paths),
           (''browse'', JObj [(''limitSymbolsToIncludedHeaders'', JBool False)])]"

definition docLib :: json where
  "docLib = JObj [(''configurations'', JArr [platformSection [JStr ''/w/lib'']])]"

definition worldLib :: world where
  "worldLib = emptyWorld\<lparr>files := [''/w/.vscode/c_cpp_properties.json'' \<mapsto> ''DOC''],
      mkdirs := [''/w/.vscode'']\<rparr>"

definition worldBroken :: world where
  "worldBroken = emptyWorld\<lparr>files := [''/w/.vscode/c_cpp_properties.json'' \<mapsto> ''{oops'']\<rparr>"

definition docBare :: json where
  "docBare = JObj [(''configurations'', JArr [JObj [(''name'', JStr ''Linux'')]])]"

definition docBareMerged :: json where
  "docBareMerged = JObj [(''configurations'', JArr [JObj [(''name'', JStr ''Linux''),
     (''browse'', JObj [(''limitSymbolsToIncludedHeaders'', JBool False)]),
     (''includePath'', JArr [JStr ''/w/lib''])]])]"

definition worldBare :: world where
  "worldBare = emptyWorld\<lparr>files := [''/w/.vscode/c_cpp_properties.json'' \<mapsto> ''BARE'']\<rparr>"




definition failureCode :: "process_result \<Rightarrow> int option" where
  "failureCode res =
     (case res of
        Exited code \<Rightarrow> if code = 0 then None else Some code
      | LaunchFailed code \<Rightarrow> Some code)"

definition newEvents :: "world \<Rightarrow> world \<Rightarrow> event list" where
  "newEvents w w' = drop (length (trace w)) (trace w')"

definition docNullSection :: json where
  "docNullSection = JObj [(''configurations'', JArr [JObj [(''name'', JStr ''Linux'')], JNull])]"

definition docBareScanned :: json where
  "docBareScanned = JObj [(''configurations'', JArr [JObj [(''name'', JStr ''Linux''),
     (''browse'', JObj [(''limitSymbolsToIncludedHeaders'', JBool False)])]])]"

definition worldNullSection :: world where
  "worldNullSection = emptyWorld\<lparr>files := [''/w/.vscode/c_cpp_properties.json'' \<mapsto> ''NULL'']\<rparr>"

section \<open>Properties of the steps of a reconciliation\<close>

lemma findExisting_strings:
  "findExisting env c (map JStr xs) = Inr (\<exists>e\<in>set xs. c = resolved env e)"
  by (induction xs) auto

lemma mergedPaths_extends: "\<exists>ys. mergedPaths r xs cs = xs @ ys"
proof (induction cs arbitrary: xs)
  case Nil
  then show ?case by simp
next
  case (Cons c cs)
  obtain ys where "mergedPaths r (if \<exists>e\<in>set xs. r e = r c then xs else xs @ [r c]) cs
      = (if \<exists>e\<in>set xs. r e = r c then xs else xs @ [r c]) @ ys"
    using Cons.IH by blast
  then show ?case by (cases "\<exists>e\<in>set xs. r e = r c") auto
qed

lemma addChildLibPath_strings:
  assumes "map_of sec ''includePath'' = Some (JArr (map JStr xs))"
  shows "addChildLibPath env sec c =
     Inr (if \<exists>e\<in>set xs. resolved env e = resolved env c then sec
          else AList.update ''includePath'' (JArr (map JStr (xs @ [resolved env c]))) sec)"
proof (cases xs)
  case Nil
  with assms show ?thesis by (simp add: addChildLibPath_def)
next
  case (Cons x xs')
  define b where "b = (\<exists>e\<in>set xs. resolved env e = resolved env c)"
  have "findExisting env (resolved env c) (map JStr xs) = Inr b"
    unfolding b_def findExisting_strings by (simp add: eq_commute)
  then have f: "findExisting env (resolved env c) (JStr x # map JStr xs') = Inr b"
    using Cons by simp
  have "addChildLibPath env sec c =
      (if b then Inr sec
       else Inr (AList.update ''includePath'' (JArr (map JStr (xs @ [resolved env c]))) sec))"
    using assms Cons f by (cases b) (simp_all add: addChildLibPath_def Let_def del: findExisting.simps)
  then show ?thesis unfolding b_def by simp
qed

lemma mergeLibPaths_strings:
  "map_of sec ''includePath'' = Some (JArr (map JStr xs)) \<Longrightarrow>
   mergeLibPaths env sec cs =
     Inr (if mergedPaths (resolved env) xs cs = xs then sec
          else AList.update ''includePath''
                 (JArr (map JStr (mergedPaths (resolved env) xs cs))) sec)"
proof (induction cs arbitrary: sec xs)
  case Nil
  then show ?case by simp
next
  case (Cons c cs)
  show ?case
  proof (cases "\<exists>e\<in>set xs. resolved env e = resolved env c")
    case True
    with Cons.prems Cons.IH [OF Cons.prems] show ?thesis
      by (simp add: addChildLibPath_strings)
  next
    case False
    let ?xs = "xs @ [resolved env c]"
    let ?sec = "AList.update ''includePath'' (JArr (map JStr ?xs)) sec"
    have m: "map_of ?sec ''includePath'' = Some (JArr (map JStr ?xs))"
      by (simp add: update_conv')
    obtain ys where ys: "mergedPaths (resolved env) ?xs cs = ?xs @ ys"
      using mergedPaths_extends by blast
    from False Cons.prems Cons.IH [OF m] ys show ?thesis
      by (simp add: addChildLibPath_strings)
  qed
qed

lemma present_skips: "present env sec c \<Longrightarrow> addChildLibPath env sec c = Inr sec"
  by (auto simp add: present_def addChildLibPath_def Let_def
      split: option.splits json.splits list.splits)

lemma findExisting_append_True:
  "findExisting env c xs = Inr True \<Longrightarrow> findExisting env c (xs @ ys) = Inr True"
  by (induction env c xs rule: findExisting.induct) (auto split: if_splits)

lemma findExisting_append_False:
  "findExisting env c xs = Inr False \<Longrightarrow>
   findExisting env c (xs @ [JStr e]) = Inr (c = resolved env e)"
  by (induction env c xs rule: findExisting.induct) (auto split: if_splits)

lemma addChildLibPath_shape:
  "addChildLibPath env sec c = Inr sec' \<Longrightarrow>
   sec' = sec \<or> (\<exists>v. sec' = AList.update ''includePath'' (JArr v) sec)"
  by (auto simp add: addChildLibPath_def Let_def
      split: option.splits json.splits list.splits sum.splits bool.splits if_splits)

lemma mergeLibPaths_shape:
  "mergeLibPaths env sec cs = Inr sec' \<Longrightarrow>
   sec' = sec \<or> (\<exists>v. sec' = AList.update ''includePath'' (JArr v) sec)"
proof (induction cs arbitrary: sec)
  case Nil
  then show ?case by simp
next
  case (Cons c cs)
  then obtain s1 where s1: "addChildLibPath env sec c = Inr s1" "mergeLibPaths env s1 cs = Inr sec'"
    by (auto split: sum.splits)
  from addChildLibPath_shape [OF s1(1)] Cons.IH [OF s1(2)] show ?case
    by auto
qed

lemma findExisting_snoc_False:
  "findExisting env c (e # es) = Inr False \<Longrightarrow>
   findExisting env c (e # es @ [JStr x]) = Inr (c = resolved env x)"
  using findExisting_append_False [of env c "e # es" x] by simp

lemma findExisting_snoc_True:
  "findExisting env c (e # es) = Inr True \<Longrightarrow>
   findExisting env c (e # es @ ys) = Inr True"
  using findExisting_append_True [of env c "e # es" ys] by simp

lemma findExisting_single:
  "findExisting env c [JStr x] = Inr (c = resolved env x)"
  by simp

lemma addChildLibPath_present:
  assumes idem: "\<forall>p. resolved env (resolved env p) = resolved env p"
    and "addChildLibPath env sec c = Inr sec'"
  shows "present env sec' c"
  using assms(2) unfolding addChildLibPath_def present_def Let_def
  by (auto split: option.splits json.splits list.splits sum.splits bool.splits if_splits
      simp add: update_conv' idem findExisting_snoc_False findExisting_single
      simp del: findExisting.simps)

lemma addChildLibPath_keeps_present:
  assumes "present env sec c" and "addChildLibPath env sec c' = Inr sec'"
  shows "present env sec' c"
  using assms unfolding addChildLibPath_def present_def Let_def
  by (auto split: option.splits json.splits list.splits sum.splits bool.splits if_splits
      simp add: update_conv' findExisting_snoc_True simp del: findExisting.simps)

lemma mergeLibPaths_keeps_present:
  "present env sec c \<Longrightarrow> mergeLibPaths env sec cs = Inr sec' \<Longrightarrow> present env sec' c"
proof (induction cs arbitrary: sec)
  case Nil
  then show ?case by simp
next
  case (Cons c' cs)
  from Cons.prems(2) obtain s1 where
    s1: "addChildLibPath env sec c' = Inr s1" "mergeLibPaths env s1 cs = Inr sec'"
    by (auto split: sum.splits)
  show ?case
    using Cons.IH [OF addChildLibPath_keeps_present [OF Cons.prems(1) s1(1)] s1(2)] .
qed

lemma mergeLibPaths_all_present:
  assumes idem: "\<forall>p. resolved env (resolved env p) = resolved env p"
  shows "mergeLibPaths env sec cs = Inr sec' \<Longrightarrow> \<forall>c\<in>set cs. present env sec' c"
proof (induction cs arbitrary: sec)
  case Nil
  then show ?case by simp
next
  case (Cons c cs)
  from Cons.prems obtain s1 where
    s1: "addChildLibPath env sec c = Inr s1" "mergeLibPaths env s1 cs = Inr sec'"
    by (auto split: sum.splits)
  have "present env sec' c"
    using mergeLibPaths_keeps_present [OF addChildLibPath_present [OF idem s1(1)] s1(2)] .
  with Cons.IH [OF s1(2)] show ?case by simp
qed

lemma mergeLibPaths_fixed:
  "\<forall>c\<in>set cs. present env sec c \<Longrightarrow> mergeLibPaths env sec cs = Inr sec"
  by (induction cs) (simp_all add: present_skips)

lemma mergeLibPaths_idempotent:
  assumes "\<forall>p. resolved env (resolved env p) = resolved env p"
    and "mergeLibPaths env sec cs = Inr sec'"
  shows "mergeLibPaths env sec' cs = Inr sec'"
  using mergeLibPaths_fixed [OF mergeLibPaths_all_present [OF assms]] .

lemma forceBrowse_cases:
  assumes "forceBrowse sec = Inr sec'"
  shows "(\<exists>bs. sec' = AList.update ''browse''
              (JObj (AList.update ''limitSymbolsToIncludedHeaders'' (JBool False) bs)) sec)
       \<or> (\<exists>xs. sec' = AList.update ''browse'' (JArr xs) sec)"
proof (cases "orDefault (map_of sec ''browse'') (JObj [])")
  case (JObj bs)
  with assms show ?thesis by (auto simp add: forceBrowse_def)
next
  case (JArr xs)
  with assms show ?thesis by (auto simp add: forceBrowse_def)
qed (use assms in \<open>simp_all add: forceBrowse_def\<close>)

lemma forceBrowse_object:
  "map_of sec ''browse'' = Some (JObj bs) \<Longrightarrow>
   forceBrowse sec = Inr (AList.update ''browse''
       (JObj (AList.update ''limitSymbolsToIncludedHeaders'' (JBool False) bs)) sec)"
  by (simp add: forceBrowse_def orDefault_def)

lemma forceBrowse_array:
  "map_of sec ''browse'' = Some (JArr xs) \<Longrightarrow>
   forceBrowse sec = Inr (AList.update ''browse'' (JArr xs) sec)"
  by (simp add: forceBrowse_def orDefault_def)

lemma forceBrowse_fixed:
  assumes "forceBrowse sec = Inr sec'"
  shows "forceBrowse sec' = Inr sec'"
  using forceBrowse_cases [OF assms]
proof (elim disjE exE)
  fix bs
  assume s: "sec' = AList.update ''browse''
      (JObj (AList.update ''limitSymbolsToIncludedHeaders'' (JBool False) bs)) sec"
  then have "map_of sec' ''browse''
      = Some (JObj (AList.update ''limitSymbolsToIncludedHeaders'' (JBool False) bs))"
    by (simp add: update_conv')
  from forceBrowse_object [OF this] s show ?thesis by simp
next
  fix xs
  assume s: "sec' = AList.update ''browse'' (JArr xs) sec"
  then have "map_of sec' ''browse'' = Some (JArr xs)"
    by (simp add: update_conv')
  from forceBrowse_array [OF this] s show ?thesis by simp
qed

lemma forceBrowse_name:
  assumes "forceBrowse sec = Inr sec'"
  shows "map_of sec' ''name'' = map_of sec ''name''"
  using forceBrowse_cases [OF assms] by (auto simp add: update_conv')

lemma update_commute:
  "k \<noteq> k' \<Longrightarrow> k \<in> fst ` set al \<Longrightarrow>
   AList.update k v (AList.update k' v' al) = AList.update k' v' (AList.update k v al)"
  by (induction al) auto

lemma update_fixed_key:
  assumes "AList.update k v al = al"
  shows "k \<in> fst ` set al"
proof -
  have "k \<in> fst ` set (AList.update k v al)"
    by (simp add: dom_update)
  then show ?thesis by (simp only: assms)
qed

lemma forceBrowse_includePath:
  assumes "forceBrowse sec = Inr sec"
  shows "forceBrowse (AList.update ''includePath'' v sec)
       = Inr (AList.update ''includePath'' v sec)"
proof -
  from forceBrowse_cases [OF assms] have "\<exists>b0. AList.update ''browse'' b0 sec = sec"
    by (elim disjE exE) (rule exI, erule sym)+
  then obtain b0 where "AList.update ''browse'' b0 sec = sec" ..
  then have key: "''browse'' \<in> fst ` set sec"
    by (rule update_fixed_key)
  have sw: "AList.update ''browse'' b (AList.update ''includePath'' v sec)
      = AList.update ''includePath'' v (AList.update ''browse'' b sec)" for b
    by (rule update_commute [OF _ key]) simp
  have same: "map_of (AList.update ''includePath'' v sec) ''browse'' = map_of sec ''browse''"
    by (simp add: update_conv')
  have "forceBrowse (AList.update ''includePath'' v sec)
      = map_sum id (AList.update ''includePath'' v) (forceBrowse sec)"
    unfolding forceBrowse_def same
    by (cases "orDefault (map_of sec ''browse'') (JObj [])") (simp_all add: sw)
  with assms show ?thesis by simp
qed

lemma visitSection_cases:
  assumes "visitSection env s = Inr s'"
  shows "(\<not> isPlatformSection env s \<and> s' = s \<and> s \<noteq> JNull)
       \<or> (\<exists>sec sec'. s = JObj sec \<and> s' = JObj sec' \<and> isPlatformSection env s
              \<and> forceBrowse sec = Inr sec')"
proof (cases s)
  case (JObj sec)
  show ?thesis
  proof (cases "isPlatformSection env (JObj sec)")
    case True
    with assms JObj show ?thesis
      by (cases "forceBrowse sec") (auto simp add: visitSection_def)
  next
    case False
    with assms JObj show ?thesis by (auto simp add: visitSection_def)
  qed
qed (use assms in \<open>auto simp add: visitSection_def isPlatformSection_def\<close>)

lemma visitSection_other:
  "\<not> isPlatformSection env s \<Longrightarrow> s \<noteq> JNull \<Longrightarrow> visitSection env s = Inr s"
  by (cases s) (simp_all add: visitSection_def)

lemma visitSection_match:
  "isPlatformSection env (JObj sec) \<Longrightarrow> forceBrowse sec = Inr sec' \<Longrightarrow>
   visitSection env (JObj sec) = Inr (JObj sec')"
  by (simp add: visitSection_def)

lemma isPlatformSection_name:
  "map_of sec' ''name'' = map_of sec ''name'' \<Longrightarrow>
   isPlatformSection env (JObj sec') = isPlatformSection env (JObj sec)"
  by (simp add: isPlatformSection_def)

lemma visitSection_platform:
  assumes "visitSection env s = Inr s'"
  shows "isPlatformSection env s' = isPlatformSection env s"
  using visitSection_cases [OF assms]
  by (auto dest!: forceBrowse_name isPlatformSection_name)

lemma visitSection_fixed:
  assumes "visitSection env s = Inr s'"
  shows "visitSection env s' = Inr s'"
  using visitSection_cases [OF assms]
proof (elim disjE exE conjE)
  assume "\<not> isPlatformSection env s" "s' = s" "s \<noteq> JNull"
  then show ?thesis by (simp add: visitSection_other)
next
  fix sec sec'
  assume a: "s = JObj sec" "s' = JObj sec'" "isPlatformSection env s" "forceBrowse sec = Inr sec'"
  then have "isPlatformSection env (JObj sec')"
    using visitSection_platform [OF assms] by simp
  from visitSection_match [OF this forceBrowse_fixed [OF a(4)]] a(2) show ?thesis by simp
qed

lemma scanSections_result:
  "scanSections env ss = Inr (ss', r) \<Longrightarrow>
   list_all2 (\<lambda>s s'. visitSection env s = Inr s') ss ss' \<and> r = lastPlatformIndex env ss"
proof (induction ss arbitrary: ss' r)
  case Nil
  then show ?case by simp
next
  case (Cons s ss)
  from Cons.prems obtain s1 ss1 later where
    v: "visitSection env s = Inr s1" and
    sc: "scanSections env ss = Inr (ss1, later)" and
    res: "ss' = s1 # ss1"
      "r = (case later of Some j \<Rightarrow> Some (Suc j)
            | None \<Rightarrow> if isPlatformSection env s then Some 0 else None)"
    by (auto split: sum.splits prod.splits)
  from Cons.IH [OF sc] v res show ?case by simp
qed

lemma scanSections_from_visits:
  "list_all2 (\<lambda>s s'. visitSection env s = Inr s') ss ss' \<Longrightarrow>
   scanSections env ss = Inr (ss', lastPlatformIndex env ss)"
  by (induction ss ss' rule: list_all2_induct) simp_all

lemma lastPlatformIndex_cong:
  "map (isPlatformSection env) ss = map (isPlatformSection env) ss' \<Longrightarrow>
   lastPlatformIndex env ss = lastPlatformIndex env ss'"
proof (induction ss arbitrary: ss')
  case Nil
  then show ?case by simp
next
  case (Cons s ss)
  then obtain t ts where "ss' = t # ts" by (cases ss') auto
  with Cons show ?case by simp
qed

lemma lastPlatformIndex_Some:
  "lastPlatformIndex env ss = Some i \<Longrightarrow>
   i < length ss \<and> isPlatformSection env (ss ! i) \<and>
   (\<forall>j. i < j \<and> j < length ss \<longrightarrow> \<not> isPlatformSection env (ss ! j))"
proof (induction ss arbitrary: i)
  case Nil
  then show ?case by simp
next
  case (Cons s ss)
  show ?case
  proof (cases "lastPlatformIndex env ss")
    case None
    have no: "\<not> isPlatformSection env (ss ! k)" if "k < length ss" for k
      using None that
    proof (induction ss arbitrary: k)
      case Nil
      then show ?case by simp
    next
      case (Cons a as)
      then show ?case by (cases k) (auto split: option.splits if_splits)
    qed
    from None Cons.prems have i: "i = 0" "isPlatformSection env s"
      by (auto split: if_splits)
    show ?thesis
    proof (intro conjI allI impI)
      fix j assume "i < j \<and> j < length (s # ss)"
      then obtain k where "j = Suc k" "k < length ss" using i by (cases j) auto
      then show "\<not> isPlatformSection env ((s # ss) ! j)" using no by simp
    qed (use i in simp_all)
  next
    case (Some k)
    with Cons.prems have i: "i = Suc k" by simp
    from Cons.IH [OF Some] have
      k: "k < length ss" "isPlatformSection env (ss ! k)"
      "\<And>j. k < j \<Longrightarrow> j < length ss \<Longrightarrow> \<not> isPlatformSection env (ss ! j)"
      by auto
    show ?thesis
    proof (intro conjI allI impI)
      fix j assume "i < j \<and> j < length (s # ss)"
      then obtain m where "j = Suc m" "k < m" "m < length ss" using i by (cases j) auto
      then show "\<not> isPlatformSection env ((s # ss) ! j)" using k(3) by simp
    qed (use i k in simp_all)
  qed
qed

lemma lastPlatformIndex_None:
  "lastPlatformIndex env ss = None \<longleftrightarrow> (\<forall>s\<in>set ss. \<not> isPlatformSection env s)"
  by (induction ss) (auto split: option.splits)

lemma lastPlatformIndex_snoc:
  "lastPlatformIndex env (ss @ [s]) =
     (if isPlatformSection env s then Some (length ss) else lastPlatformIndex env ss)"
  by (induction ss) (auto split: option.splits)

lemma reconcileSections_cases:
  assumes "reconcileSections env P secs = Inr out"
  obtains secs1 found secs2 i sec sec' where
    "scanSections env secs = Inr (secs1, found)"
    "ensureSection env secs1 found = (secs2, i)"
    "secs2 ! i = JObj sec"
    "mergeLibPaths env sec P = Inr sec'"
    "out = secs2[i := JObj sec']"
proof -
  from assms obtain secs1 found where sc: "scanSections env secs = Inr (secs1, found)"
    by (cases "scanSections env secs") (auto simp add: reconcileSections_def)
  obtain secs2 i where en: "ensureSection env secs1 found = (secs2, i)"
    by (cases "ensureSection env secs1 found")
  from assms sc en obtain sec where s: "secs2 ! i = JObj sec"
    by (cases "secs2 ! i") (auto simp add: reconcileSections_def)
  from assms sc en s obtain sec' where m: "mergeLibPaths env sec P = Inr sec'"
    by (cases "mergeLibPaths env sec P") (auto simp add: reconcileSections_def)
  from assms sc en s m have "out = secs2[i := JObj sec']"
    by (simp add: reconcileSections_def)
  with sc en s m that show thesis by blast
qed

lemma newSection_visit:
  "visitSection env (JObj (newSection env)) = Inr (JObj (newSection env))"
  "isPlatformSection env (JObj (newSection env))"
  by (simp_all add: visitSection_def isPlatformSection_def newSection_def forceBrowse_def
      orDefault_def)

lemma scanSections_length:
  "scanSections env ss = Inr (ss', r) \<Longrightarrow> length ss' = length ss"
  by (auto dest!: scanSections_result list_all2_lengthD)

lemma scanSections_nth:
  "scanSections env ss = Inr (ss', r) \<Longrightarrow> i < length ss \<Longrightarrow>
   visitSection env (ss ! i) = Inr (ss' ! i)"
  by (auto dest!: scanSections_result simp add: list_all2_conv_all_nth)

text \<open>After the scan and the creation step, every section is a fixed point of the visit,
  the active position is in range, holds a platform section, and no later one does.\<close>

lemma ensureSection_props:
  assumes sc: "scanSections env secs = Inr (secs1, found)"
    and en: "ensureSection env secs1 found = (secs2, i)"
  shows "i < length secs2"
    and "isPlatformSection env (secs2 ! i)"
    and "\<forall>j. i < j \<and> j < length secs2 \<longrightarrow> \<not> isPlatformSection env (secs2 ! j)"
    and "\<forall>j < length secs2. visitSection env (secs2 ! j) = Inr (secs2 ! j)"
proof -
  have len: "length secs1 = length secs" using scanSections_length [OF sc] .
  have found: "found = lastPlatformIndex env secs"
    using scanSections_result [OF sc] by simp
  have fix1: "visitSection env (secs1 ! j) = Inr (secs1 ! j)" if "j < length secs1" for j
    using scanSections_nth [OF sc, of j] that len by (auto dest: visitSection_fixed)
  have plat1: "isPlatformSection env (secs1 ! j) = isPlatformSection env (secs ! j)"
    if "j < length secs1" for j
    using scanSections_nth [OF sc, of j] that len by (auto dest: visitSection_platform)
  have "i < length secs2 \<and> isPlatformSection env (secs2 ! i) \<and>
      (\<forall>j. i < j \<and> j < length secs2 \<longrightarrow> \<not> isPlatformSection env (secs2 ! j)) \<and>
      (\<forall>j < length secs2. visitSection env (secs2 ! j) = Inr (secs2 ! j))"
  proof (cases found)
    case None
    with en have e: "secs2 = secs1 @ [JObj (newSection env)]" "i = length secs1"
      by (simp_all add: ensureSection_def)
    have "\<forall>j < length secs2. visitSection env (secs2 ! j) = Inr (secs2 ! j)"
      using e fix1 newSection_visit(1) by (auto simp add: nth_append less_Suc_eq)
    moreover have "\<forall>j. i < j \<and> j < length secs2 \<longrightarrow> \<not> isPlatformSection env (secs2 ! j)"
      using e by auto
    ultimately show ?thesis using e newSection_visit(2) [of env] by simp
  next
    case (Some k)
    with en have e: "secs2 = secs1" "i = k" by (simp_all add: ensureSection_def)
    from Some found have "lastPlatformIndex env secs = Some i" using e by simp
    from lastPlatformIndex_Some [OF this] have
      k: "i < length secs" "isPlatformSection env (secs ! i)"
      "\<forall>j. i < j \<and> j < length secs \<longrightarrow> \<not> isPlatformSection env (secs ! j)"
      by auto
    show ?thesis using e k len plat1 fix1 by simp
  qed
  then show "i < length secs2"
    and "isPlatformSection env (secs2 ! i)"
    and "\<forall>j. i < j \<and> j < length secs2 \<longrightarrow> \<not> isPlatformSection env (secs2 ! j)"
    and "\<forall>j < length secs2. visitSection env (secs2 ! j) = Inr (secs2 ! j)"
    by simp_all
qed

text \<open>A list of visit fixed points with its last platform section at \<open>i\<close> scans to itself.\<close>

lemma lastPlatformIndex_eqI:
  "i < length ss \<Longrightarrow> isPlatformSection env (ss ! i) \<Longrightarrow>
   \<forall>j. i < j \<and> j < length ss \<longrightarrow> \<not> isPlatformSection env (ss ! j) \<Longrightarrow>
   lastPlatformIndex env ss = Some i"
proof -
  assume a: "i < length ss" "isPlatformSection env (ss ! i)"
    "\<forall>j. i < j \<and> j < length ss \<longrightarrow> \<not> isPlatformSection env (ss ! j)"
  from a(1,2) have "lastPlatformIndex env ss \<noteq> None"
    by (auto simp add: lastPlatformIndex_None)
  then obtain k where k: "lastPlatformIndex env ss = Some k" by auto
  from lastPlatformIndex_Some [OF k] a have "k = i"
    by (metis linorder_neqE_nat)
  with k show ?thesis by simp
qed

lemma scanSections_fixed:
  assumes "i < length ss" "isPlatformSection env (ss ! i)"
    "\<forall>j. i < j \<and> j < length ss \<longrightarrow> \<not> isPlatformSection env (ss ! j)"
    "\<forall>j < length ss. visitSection env (ss ! j) = Inr (ss ! j)"
  shows "scanSections env ss = Inr (ss, Some i)"
proof -
  have "list_all2 (\<lambda>s s'. visitSection env s = Inr s') ss ss"
    using assms(4) by (simp add: list_all2_conv_all_nth)
  from scanSections_from_visits [OF this] lastPlatformIndex_eqI [OF assms(1-3)]
  show ?thesis by simp
qed

lemma mergeLibPaths_visit:
  assumes v: "visitSection env (JObj sec) = Inr (JObj sec)"
    and p: "isPlatformSection env (JObj sec)"
    and m: "mergeLibPaths env sec P = Inr sec'"
  shows "visitSection env (JObj sec') = Inr (JObj sec')"
    and "isPlatformSection env (JObj sec')"
proof -
  from v p have fb: "forceBrowse sec = Inr sec"
    by (cases "forceBrowse sec") (simp_all add: visitSection_def)
  from mergeLibPaths_shape [OF m] consider "sec' = sec"
    | v where "sec' = AList.update ''includePath'' (JArr v) sec" by blast
  then have "forceBrowse sec' = Inr sec' \<and> map_of sec' ''name'' = map_of sec ''name''"
  proof cases
    case 1
    with fb show ?thesis by simp
  next
    case 2
    with forceBrowse_includePath [OF fb] show ?thesis by (simp add: update_conv')
  qed
  then have fb': "forceBrowse sec' = Inr sec'" and n: "map_of sec' ''name'' = map_of sec ''name''"
    by simp_all
  show p': "isPlatformSection env (JObj sec')"
    using p isPlatformSection_name [OF n] by simp
  show "visitSection env (JObj sec') = Inr (JObj sec')"
    using visitSection_match [OF p' fb'] .
qed

lemma reconcileSections_idempotent:
  assumes idem: "\<forall>p. resolved env (resolved env p) = resolved env p"
    and r: "reconcileSections env P secs = Inr out"
  shows "reconcileSections env P out = Inr out"
proof -
  from r obtain secs1 found secs2 i sec sec' where
    sc: "scanSections env secs = Inr (secs1, found)" and
    en: "ensureSection env secs1 found = (secs2, i)" and
    s: "secs2 ! i = JObj sec" and
    m: "mergeLibPaths env sec P = Inr sec'" and
    out: "out = secs2[i := JObj sec']"
    by (rule reconcileSections_cases)
  note pr = ensureSection_props [OF sc en]
  from pr(4) pr(1) s have v: "visitSection env (JObj sec) = Inr (JObj sec)" by auto
  from pr(2) s have p: "isPlatformSection env (JObj sec)" by simp
  note ms = mergeLibPaths_visit [OF v p m]
  have len: "length out = length secs2" using out by simp
  have a1: "i < length out" using pr(1) len by simp
  have a2: "isPlatformSection env (out ! i)" using out pr(1) ms(2) by simp
  have a3: "\<forall>j. i < j \<and> j < length out \<longrightarrow> \<not> isPlatformSection env (out ! j)"
    using out pr(3) by simp
  have a4: "\<forall>j < length out. visitSection env (out ! j) = Inr (out ! j)"
  proof (intro allI impI)
    fix j assume "j < length out"
    then have j: "j < length secs2" using len by simp
    show "visitSection env (out ! j) = Inr (out ! j)"
    proof (cases "j = i")
      case True
      with out j ms(1) show ?thesis by simp
    next
      case False
      with out j pr(4) show ?thesis by simp
    qed
  qed
  have sc': "scanSections env out = Inr (out, Some i)"
    using scanSections_fixed [OF a1 a2 a3 a4] .
  have en': "ensureSection env out (Some i) = (out, i)"
    by (simp add: ensureSection_def)
  have s': "out ! i = JObj sec'" using out pr(1) by simp
  have m': "mergeLibPaths env sec' P = Inr sec'"
    using mergeLibPaths_idempotent [OF idem m] .
  have "out[i := JObj sec'] = out" using out by simp
  with sc' en' s' m' show ?thesis by (simp add: reconcileSections_def)
qed

lemma reconcile_idempotent:
  assumes idem: "\<forall>p. resolved env (resolved env p) = resolved env p"
    and r: "reconcile env P d = Inr d'"
  shows "reconcile env P d' = Inr d' \<and> truthy d'"
proof (cases d)
  case (JObj doc)
  from r JObj obtain secs where c: "orDefault (map_of doc ''configurations'') (JArr []) = JArr secs"
    by (cases "orDefault (map_of doc ''configurations'') (JArr [])")
       (simp_all add: reconcile_def)
  from r JObj c obtain out where o: "reconcileSections env P secs = Inr out"
    by (cases "reconcileSections env P secs") (simp_all add: reconcile_def)
  from r JObj c o have d': "d' = JObj (AList.update ''configurations'' (JArr out) doc)"
    by (simp add: reconcile_def)
  have c': "orDefault (map_of (AList.update ''configurations'' (JArr out) doc) ''configurations'')
      (JArr []) = JArr out"
    by (simp add: update_conv' orDefault_def)
  from reconcileSections_idempotent [OF idem o] c' d' show ?thesis
    by (simp add: reconcile_def)
next
  case (JArr xs)
  with r show ?thesis by (auto simp add: reconcile_def)
qed (use r in \<open>simp_all add: reconcile_def\<close>)

lemma libPathsFor_cong:
  "dirs w' = dirs w \<Longrightarrow> libPathsFor env lp w' = libPathsFor env lp w"
  by (simp add: libPathsFor_def getDefaultPackageLibPaths_def Let_def split: option.splits)

lemma loadDocument_cong:
  "files w' (configFilePath env) = files w (configFilePath env) \<Longrightarrow>
   loadDocument env w' = loadDocument env w"
  by (simp add: loadDocument_def)

lemma prepareDirectory_fields:
  "files (prepareDirectory env w) = files w" "dirs (prepareDirectory env w) = dirs w"
  by (simp_all add: prepareDirectory_def split: option.splits)

lemma loadDocument_missing:
  "\<not> truthy (loadDocument env w) \<Longrightarrow> files w (configFilePath env) \<noteq> None"
  by (auto simp add: loadDocument_def split: option.splits)

lemma addLibPath_fields:
  assumes "addLibPath env lp w = (r, w')"
  shows "dirs w' = dirs w"
    and "r \<noteq> Returned \<Longrightarrow> files w' = files w"
    and "r = Returned \<Longrightarrow> \<exists>d. truthy (loadDocument env w) \<and>
           reconcile env (libPathsFor env lp w) (loadDocument env w) = Inr d \<and>
           files w' = (files w)(configFilePath env \<mapsto> JSON_stringify env d)"
  using assms
  by (auto simp add: addLibPath_def Let_def prepareDirectory_fields
      split: if_splits sum.splits)

section \<open>Reconciliation is idempotent\<close>

lemma posixNormalize_absolute: "posixNormalize (CHR ''/'' # p) = CHR ''/'' # p"
  by simp

lemma posixResolve_absolute: "\<exists>q. posixResolve p = CHR ''/'' # q"
proof (cases p)
  case Nil
  then show ?thesis by (simp add: posixResolve_def)
next
  case (Cons c cs)
  then show ?thesis by (cases "c = CHR ''/''") (simp_all add: posixResolve_def)
qed

lemma posixResolve_fixed: "posixResolve (CHR ''/'' # q) = CHR ''/'' # q"
  by (simp add: posixResolve_def)

lemma demoEnv_resolved:
  "resolved (demoEnv tbl b r) p = posixResolve (posixNormalize p)"
  by (simp add: resolved_def demoEnv_def)

lemma demoEnv_resolved_idem:
  "resolved (demoEnv tbl b r) (resolved (demoEnv tbl b r) p) = resolved (demoEnv tbl b r) p"
proof -
  obtain q where q: "posixResolve (posixNormalize p) = CHR ''/'' # q"
    using posixResolve_absolute by blast
  show ?thesis
    unfolding demoEnv_resolved q
    by (simp only: posixNormalize_absolute posixResolve_fixed)
qed

lemmas demo_defs =
  demoEnv_def emptyWorld_def docLib_def platformSection_def posixResolve_def posixDirname_def
  tableStringify_def tableParse_def

lemmas addLibPath_defs =
  addLibPath_def libPathsFor_def getDefaultPackageLibPaths_def prepareDirectory_def
  loadDocument_def tryParseJSON_def configFilePath_def reconcile_def reconcileSections_def
  ensureSection_def newSection_def orDefault_def visitSection_def isPlatformSection_def
  forceBrowse_def addChildLibPath_def resolved_def Let_def

lemma demo_first_run:
  "addLibPath (demoEnv [(docLib, ''DOC'')] None (Exited 0)) ''lib'' emptyWorld
     = (Returned, worldLib)"
  by (simp add: addLibPath_defs demo_defs worldLib_def)

lemma demo_second_run:
  "addLibPath (demoEnv [(docLib, ''DOC'')] None (Exited 0)) ''lib'' worldLib
     = (Returned, worldLib)"
  by (simp add: addLibPath_defs demo_defs worldLib_def)

text \<open>
  Claim C1. Running \<^verbatim>\<open>addLibPath\<close> a second time with the same argument, on the world
  the first run left, ends as the first run did and leaves every file as the first run
  left it; in particular the \<^verbatim>\<open>includePath\<close> of the active section is what the first run
  produced. The path functions and the JSON functions belong to the platform: the
  statement takes from them that resolving a resolved path changes nothing and that the
  text written by the first run parses back to the document it was printed from.
\<close>

theorem addLibPath_idempotent:
  assumes idem: "\<forall>p. resolved env (resolved env p) = resolved env p"
    and roundtrip: "\<forall>d. files w1 (configFilePath env) = Some (JSON_stringify env d)
          \<longrightarrow> JSON_parse env (JSON_stringify env d) = Some d"
    and run1: "addLibPath env libraryPath w = (r1, w1)"
    and run2: "addLibPath env libraryPath w1 = (r2, w2)"
  shows "r2 = r1 \<and> files w2 = files w1 \<and>
         activeIncludePath env w2 = activeIncludePath env w1"
proof -
  note f1 = addLibPath_fields [OF run1]
  have P: "libPathsFor env libraryPath w1 = libPathsFor env libraryPath w"
    using f1(1) by (rule libPathsFor_cong)
  have "r2 = r1 \<and> files w2 = files w1"
  proof (cases "r1 = Returned")
    case True
    from f1(3) [OF True] obtain d where
      t: "truthy (loadDocument env w)" and
      r: "reconcile env (libPathsFor env libraryPath w) (loadDocument env w) = Inr d" and
      fw: "files w1 = (files w)(configFilePath env \<mapsto> JSON_stringify env d)"
      by blast
    from fw have cur: "files w1 (configFilePath env) = Some (JSON_stringify env d)" by simp
    with roundtrip have "JSON_parse env (JSON_stringify env d) = Some d" by blast
    with cur have ld: "loadDocument env w1 = d"
      by (simp add: loadDocument_def tryParseJSON_def)
    from reconcile_idempotent [OF idem r] have
      r': "reconcile env (libPathsFor env libraryPath w) d = Inr d" and t': "truthy d"
      by simp_all
    have "(files w1)(configFilePath env \<mapsto> JSON_stringify env d) = files w1"
      using cur by (simp add: fun_upd_idem)
    with run2 ld P r' t' True show ?thesis
      by (auto simp add: addLibPath_def Let_def prepareDirectory_fields)
  next
    case False
    from f1(2) [OF False] have fw: "files w1 = files w" .
    then have ld: "loadDocument env w1 = loadDocument env w"
      by (simp add: loadDocument_def)
    have "fst (addLibPath env libraryPath w1) = fst (addLibPath env libraryPath w)"
      using ld P by (simp add: addLibPath_def Let_def split: sum.splits)
    with run1 run2 have "r2 = r1" by simp
    with False addLibPath_fields(2) [OF run2] show ?thesis by simp
  qed
  then show ?thesis
    by (simp add: activeIncludePath_def loadDocument_def)
qed

theorem addLibPath_idempotent_witness:
  "(\<forall>p. resolved (demoEnv [(docLib, ''DOC'')] None (Exited 0))
          (resolved (demoEnv [(docLib, ''DOC'')] None (Exited 0)) p)
        = resolved (demoEnv [(docLib, ''DOC'')] None (Exited 0)) p) \<and>
   files worldLib (configFilePath (demoEnv [(docLib, ''DOC'')] None (Exited 0)))
     = Some (JSON_stringify (demoEnv [(docLib, ''DOC'')] None (Exited 0)) docLib) \<and>
   JSON_parse (demoEnv [(docLib, ''DOC'')] None (Exited 0))
     (JSON_stringify (demoEnv [(docLib, ''DOC'')] None (Exited 0)) docLib) = Some docLib \<and>
   addLibPath (demoEnv [(docLib, ''DOC'')] None (Exited 0)) ''lib'' emptyWorld
     = (Returned, worldLib) \<and>
   addLibPath (demoEnv [(docLib, ''DOC'')] None (Exited 0)) ''lib'' worldLib
     = (Returned, worldLib) \<and>
   activeIncludePath (demoEnv [(docLib, ''DOC'')] None (Exited 0)) worldLib
     = Some (JArr [JStr ''/w/lib''])"
proof -
  let ?E = "demoEnv [(docLib, ''DOC'')] None (Exited 0)"
  have h1: "\<forall>p. resolved ?E (resolved ?E p) = resolved ?E p"
    by (simp add: demoEnv_resolved_idem)
  have h2: "\<forall>d. files worldLib (configFilePath ?E) = Some (JSON_stringify ?E d)
      \<longrightarrow> JSON_parse ?E (JSON_stringify ?E d) = Some d"
    by (simp add: demo_defs worldLib_def configFilePath_def)
  have a: "activeIncludePath ?E worldLib = Some (JArr [JStr ''/w/lib''])"
    by (simp add: activeIncludePath_def sectionField_def addLibPath_defs demo_defs worldLib_def)
  have h3: "files worldLib (configFilePath ?E) = Some (JSON_stringify ?E docLib)"
    "JSON_parse ?E (JSON_stringify ?E docLib) = Some docLib"
    by (simp_all add: demo_defs worldLib_def configFilePath_def)
  show ?thesis
    using addLibPath_idempotent [OF h1 h2 demo_first_run demo_second_run] h1 h3
      demo_first_run demo_second_run a
    by simp
qed

section \<open>An unparsable file is left alone\<close>

text \<open>
  Claim C2. When the configuration file exists and its text is not JSON, \<^verbatim>\<open>addLibPath\<close>
  ends by raising the user error \<^verbatim>\<open>arduinoFileError\<close>, of which the user is notified, and
  no file has changed: the write of line 174 is not reached.
\<close>

theorem addLibPath_unparsable:
  assumes "files w (configFilePath env) = Some text"
    and "JSON_parse env text = None"
  shows "addLibPath env libraryPath w =
           (Threw (UserError ''arduinoFileError'' (ARDUINO_FILE_ERROR env)),
            w\<lparr>trace := trace w @
                 [NotifyUserError ''arduinoFileError'' (ARDUINO_FILE_ERROR env)]\<rparr>) \<and>
         files (snd (addLibPath env libraryPath w)) = files w"
  using assms
  by (simp add: addLibPath_def Let_def loadDocument_def prepareDirectory_def tryParseJSON_def)

theorem addLibPath_unparsable_witness:
  "files worldBroken (configFilePath (demoEnv [] None (Exited 0))) = Some ''{oops'' \<and>
   JSON_parse (demoEnv [] None (Exited 0)) ''{oops'' = None \<and>
   fst (addLibPath (demoEnv [] None (Exited 0)) ''lib'' worldBroken)
     = Threw (UserError ''arduinoFileError'' ''arduino.json file error'') \<and>
   files (snd (addLibPath (demoEnv [] None (Exited 0)) ''lib'' worldBroken)) = files worldBroken \<and>
   trace (snd (addLibPath (demoEnv [] None (Exited 0)) ''lib'' worldBroken))
     = [NotifyUserError ''arduinoFileError'' ''arduino.json file error'']"
proof -
  let ?E = "demoEnv [] None (Exited 0)"
  have h1: "files worldBroken (configFilePath ?E) = Some ''{oops''"
    by (simp add: worldBroken_def emptyWorld_def configFilePath_def demoEnv_def)
  have h2: "JSON_parse ?E ''{oops'' = None"
    by (simp add: demoEnv_def tableParse_def)
  have e: "ARDUINO_FILE_ERROR ?E = ''arduino.json file error''"
    "trace worldBroken = []"
    by (simp_all add: demoEnv_def worldBroken_def emptyWorld_def)
  show ?thesis
    using addLibPath_unparsable [OF h1 h2, of "''lib''"] h1 h2 e by simp
qed

section \<open>Deduplication of include paths\<close>

lemma resolved_key: "resolved env = (\<lambda>p. path_resolve env (path_normalize env p))"
  by (rule ext) (simp add: resolved_def)


lemma mergeLibPaths_strings_field:
  assumes "map_of sec ''includePath'' = Some (JArr (map JStr xs))"
  shows "\<exists>sec'. mergeLibPaths env sec cs = Inr sec' \<and>
           map_of sec' ''includePath''
             = Some (JArr (map JStr (mergedPaths (resolved env) xs cs))) \<and>
           AList.delete ''includePath'' sec' = AList.delete ''includePath'' sec"
  using assms mergeLibPaths_strings [OF assms, of env cs]
  by (auto simp add: update_conv' delete_update_same)








section \<open>The scan and the merge on one section\<close>

lemma forceBrowse_other_field:
  assumes "forceBrowse sec = Inr sec'" and "k \<noteq> ''browse''"
  shows "map_of sec' k = map_of sec k"
  using forceBrowse_cases [OF assms(1)] assms(2) by (auto simp add: update_conv')

lemma visitSection_other_field:
  assumes "visitSection env s = Inr s'" and "k \<noteq> ''browse''"
  shows "sectionField k s' = sectionField k s"
  using visitSection_cases [OF assms(1)] forceBrowse_other_field [OF _ assms(2)]
  by (auto simp add: sectionField_def)

lemma scanSections_found:
  assumes scan: "scanSections env secs = Inr (secs1, Some i)"
  shows "i < length secs"
    and "length secs1 = length secs"
    and "isPlatformSection env (secs ! i)"
    and "\<forall>j. i < j \<and> j < length secs \<longrightarrow> \<not> isPlatformSection env (secs ! j)"
    and "\<exists>sec0 sec. secs ! i = JObj sec0 \<and> secs1 ! i = JObj sec \<and> forceBrowse sec0 = Inr sec"
proof -
  from scanSections_result [OF scan] have "lastPlatformIndex env secs = Some i" by simp
  from lastPlatformIndex_Some [OF this] show
    i: "i < length secs" and p: "isPlatformSection env (secs ! i)"
    and "\<forall>j. i < j \<and> j < length secs \<longrightarrow> \<not> isPlatformSection env (secs ! j)"
    by simp_all
  show "length secs1 = length secs" using scanSections_length [OF scan] .
  from visitSection_cases [OF scanSections_nth [OF scan i]] p
  show "\<exists>sec0 sec. secs ! i = JObj sec0 \<and> secs1 ! i = JObj sec \<and> forceBrowse sec0 = Inr sec"
    by auto
qed

lemma reconcileSections_found:
  assumes "scanSections env secs = Inr (secs1, Some i)" and "secs1 ! i = JObj sec"
  shows "reconcileSections env P secs =
           (case mergeLibPaths env sec P of
              Inl err \<Rightarrow> Inl err
            | Inr sec' \<Rightarrow> Inr (secs1[i := JObj sec']))"
  using assms by (simp add: reconcileSections_def ensureSection_def)

lemma mergeLibPaths_fresh:
  assumes "map_of sec ''includePath'' = None \<or> map_of sec ''includePath'' = Some (JArr [])"
  shows "mergeLibPaths env sec P =
           Inr (if P = [] then sec
                else AList.update ''includePath''
                       (JArr (map JStr (mergedPaths (resolved env) [] P))) sec)"
proof (cases P)
  case Nil
  then show ?thesis by simp
next
  case (Cons c cs)
  let ?s1 = "AList.update ''includePath'' (JArr [JStr (resolved env c)]) sec"
  from assms have first: "addChildLibPath env sec c = Inr ?s1"
    by (auto simp add: addChildLibPath_def)
  have m: "map_of ?s1 ''includePath'' = Some (JArr (map JStr [resolved env c]))"
    by (simp add: update_conv')
  have "mergeLibPaths env ?s1 cs =
      Inr (AList.update ''includePath''
             (JArr (map JStr (mergedPaths (resolved env) [resolved env c] cs))) sec)"
    using mergeLibPaths_strings [OF m, of env cs]
    by (cases "mergedPaths (resolved env) [resolved env c] cs = [resolved env c]") simp_all
  with first Cons show ?thesis by simp
qed

lemma mergedPaths_canonical:
  assumes idem: "\<forall>p. r (r p) = r p"
  shows "distinct xs \<Longrightarrow> \<forall>x\<in>set xs. r x = x \<Longrightarrow>
         distinct (mergedPaths r xs cs) \<and> set (mergedPaths r xs cs) = set xs \<union> r ` set cs"
proof (induction cs arbitrary: xs)
  case Nil
  then show ?case by simp
next
  case (Cons c cs)
  have test: "(\<exists>e\<in>set xs. r e = r c) \<longleftrightarrow> r c \<in> set xs"
    using Cons.prems(2) idem by force
  show ?case
  proof (cases "r c \<in> set xs")
    case True
    with test Cons.IH [OF Cons.prems] show ?thesis by auto
  next
    case False
    have d: "distinct (xs @ [r c])" using False Cons.prems(1) by simp
    have c: "\<forall>x\<in>set (xs @ [r c]). r x = x" using Cons.prems(2) idem by simp
    from False test Cons.IH [OF d c] show ?thesis by auto
  qed
qed

lemma addLibPath_parsed:
  assumes "files w (configFilePath env) = Some text"
    and "JSON_parse env text = Some d" and "truthy d"
  shows "addLibPath env libraryPath w =
           (case reconcile env (libPathsFor env libraryPath w) d of
              Inl err \<Rightarrow> (Threw err, w)
            | Inr d' \<Rightarrow>
                (Returned, w\<lparr>files := (files w)(configFilePath env \<mapsto> JSON_stringify env d')\<rparr>))"
  using assms
  by (simp add: addLibPath_def Let_def loadDocument_def prepareDirectory_def tryParseJSON_def)

lemma reconcile_object:
  assumes "orDefault (map_of doc ''configurations'') (JArr []) = JArr secs"
  shows "reconcile env P (JObj doc) =
           (case reconcileSections env P secs of
              Inl err \<Rightarrow> Inl err
            | Inr secs' \<Rightarrow> Inr (JObj (AList.update ''configurations'' (JArr secs') doc)))"
  using assms by (simp add: reconcile_def)

section \<open>What reconciliation leaves unchanged\<close>








section \<open>The active section\<close>

lemma count_platform_cong:
  "map (isPlatformSection env) xs = map (isPlatformSection env) ys \<Longrightarrow>
   length (filter (isPlatformSection env) xs) = length (filter (isPlatformSection env) ys)"
proof (induction xs arbitrary: ys)
  case Nil
  then show ?case by simp
next
  case (Cons x xs)
  then obtain y ys' where "ys = y # ys'" by (cases ys) auto
  with Cons show ?case by simp
qed

lemma reconcileSections_none:
  assumes r: "reconcileSections env P secs = Inr secs'"
    and none: "\<forall>s\<in>set secs. \<not> isPlatformSection env s"
  shows "\<exists>sec'. mergeLibPaths env (newSection env) P = Inr sec' \<and> secs' = secs @ [JObj sec']"
proof -
  from r obtain secs1 found secs2 i sec sec' where
    sc: "scanSections env secs = Inr (secs1, found)" and
    en: "ensureSection env secs1 found = (secs2, i)" and
    s: "secs2 ! i = JObj sec" and
    m: "mergeLibPaths env sec P = Inr sec'" and
    out: "secs' = secs2[i := JObj sec']"
    by (rule reconcileSections_cases)
  have "found = lastPlatformIndex env secs" using scanSections_result [OF sc] by simp
  with none have f: "found = None" by (simp add: lastPlatformIndex_None)
  have len: "length secs1 = length secs" using scanSections_length [OF sc] .
  have "secs1 ! j = secs ! j" if "j < length secs" for j
    using visitSection_cases [OF scanSections_nth [OF sc that]] none that by auto
  with len have same: "secs1 = secs" by (simp add: list_eq_iff_nth_eq)
  from en f same have e: "secs2 = secs @ [JObj (newSection env)]" "i = length secs"
    by (simp_all add: ensureSection_def)
  with s have "sec = newSection env" by simp
  with m out e show ?thesis by simp
qed

lemma reconcileSections_last:
  assumes r: "reconcileSections env P secs = Inr secs'"
    and i: "i < length secs" "isPlatformSection env (secs ! i)"
      "\<forall>j. i < j \<and> j < length secs \<longrightarrow> \<not> isPlatformSection env (secs ! j)"
  shows "length secs' = length secs"
    and "\<exists>sec sec'. visitSection env (secs ! i) = Inr (JObj sec) \<and>
           mergeLibPaths env sec P = Inr sec' \<and> secs' ! i = JObj sec'"
    and "\<forall>j<length secs. j \<noteq> i \<longrightarrow> visitSection env (secs ! j) = Inr (secs' ! j)"
proof -
  from r obtain secs1 found secs2 k sec sec' where
    sc: "scanSections env secs = Inr (secs1, found)" and
    en: "ensureSection env secs1 found = (secs2, k)" and
    s: "secs2 ! k = JObj sec" and
    m: "mergeLibPaths env sec P = Inr sec'" and
    out: "secs' = secs2[k := JObj sec']"
    by (rule reconcileSections_cases)
  have "found = lastPlatformIndex env secs" using scanSections_result [OF sc] by simp
  with lastPlatformIndex_eqI [OF i] have f: "found = Some i" by simp
  have len: "length secs1 = length secs" using scanSections_length [OF sc] .
  from en f have e: "secs2 = secs1" "k = i" by (simp_all add: ensureSection_def)
  show "length secs' = length secs" using out e len by simp
  have "visitSection env (secs ! i) = Inr (JObj sec)"
    using scanSections_nth [OF sc i(1)] s e by simp
  moreover have "secs' ! i = JObj sec'" using out e len i(1) by simp
  ultimately show "\<exists>sec sec'. visitSection env (secs ! i) = Inr (JObj sec) \<and>
      mergeLibPaths env sec P = Inr sec' \<and> secs' ! i = JObj sec'"
    using m by blast
  show "\<forall>j<length secs. j \<noteq> i \<longrightarrow> visitSection env (secs ! j) = Inr (secs' ! j)"
    using out e scanSections_nth [OF sc] by simp
qed

lemma reconcileSections_count:
  assumes r: "reconcileSections env P secs = Inr secs'"
  shows "length (filter (isPlatformSection env) secs')
       = max 1 (length (filter (isPlatformSection env) secs))"
proof -
  from r obtain secs1 found secs2 i sec sec' where
    sc: "scanSections env secs = Inr (secs1, found)" and
    en: "ensureSection env secs1 found = (secs2, i)" and
    s: "secs2 ! i = JObj sec" and
    m: "mergeLibPaths env sec P = Inr sec'" and
    out: "secs' = secs2[i := JObj sec']"
    by (rule reconcileSections_cases)
  note pr = ensureSection_props [OF sc en]
  from pr(4) pr(1) s have v: "visitSection env (JObj sec) = Inr (JObj sec)" by auto
  from pr(2) s have p: "isPlatformSection env (JObj sec)" by simp
  note ms = mergeLibPaths_visit [OF v p m]
  have len: "length secs1 = length secs" using scanSections_length [OF sc] .
  have f: "found = lastPlatformIndex env secs" using scanSections_result [OF sc] by simp
  have m1: "map (isPlatformSection env) secs1 = map (isPlatformSection env) secs"
    using len scanSections_nth [OF sc] visitSection_platform
    by (auto simp add: list_eq_iff_nth_eq)
  have m2: "map (isPlatformSection env) secs' = map (isPlatformSection env) secs2"
    using out pr(1,2) ms(2) by (simp add: map_update list_update_same_conv)
  show ?thesis
  proof (cases found)
    case None
    with en have e: "secs2 = secs1 @ [JObj (newSection env)]"
      by (simp add: ensureSection_def)
    from None f have "\<forall>s\<in>set secs. \<not> isPlatformSection env s"
      by (simp add: lastPlatformIndex_None)
    then have z: "filter (isPlatformSection env) secs = []" by simp
    have "length (filter (isPlatformSection env) secs')
        = length (filter (isPlatformSection env) secs2)"
      using count_platform_cong [OF m2] .
    also have "\<dots> = length (filter (isPlatformSection env) secs1) + 1"
      using e newSection_visit(2) [of env] by simp
    also have "\<dots> = length (filter (isPlatformSection env) secs) + 1"
      using count_platform_cong [OF m1] by simp
    finally show ?thesis using z by simp
  next
    case (Some k)
    with en have e: "secs2 = secs1" by (simp add: ensureSection_def)
    from Some f lastPlatformIndex_Some [of env secs k] have
      "k < length secs" "isPlatformSection env (secs ! k)" by simp_all
    then have "secs ! k \<in> set (filter (isPlatformSection env) secs)" by simp
    then have "filter (isPlatformSection env) secs \<noteq> []"
      by (metis empty_iff empty_set)
    then obtain n where n: "length (filter (isPlatformSection env) secs) = Suc n"
      by (cases "filter (isPlatformSection env) secs") simp_all
    have "length (filter (isPlatformSection env) secs')
        = length (filter (isPlatformSection env) secs)"
      using count_platform_cong [OF m2] count_platform_cong [OF m1] e by simp
    with n show ?thesis by simp
  qed
qed

text \<open>
  Claim C9, as stated, fails: with two sections that carry the platform's name, the
  candidate is merged into the second one, and the first keeps its paths.
\<close>

theorem first_match_counterexample:
  "reconcileSections (demoEnv [] None (Exited 0)) [''/x'']
      [platformSection [JStr ''/a''], platformSection [JStr ''/b'']]
     = Inr [platformSection [JStr ''/a''], platformSection [JStr ''/b'', JStr ''/x'']]"
  by (simp add: addLibPath_defs demo_defs)

lemma active_section_paths:
  assumes v: "visitSection env s = Inr (JObj sec)"
    and m: "mergeLibPaths env sec P = Inr sec'"
  shows "\<forall>xs. sectionField ''includePath'' s = Some (JArr (map JStr xs)) \<longrightarrow>
           sectionField ''includePath'' (JObj sec')
             = Some (JArr (map JStr
                 (mergedPaths (\<lambda>p. path_resolve env (path_normalize env p)) xs P)))"
    and "sectionField ''includePath'' s = None \<longrightarrow>
           sectionField ''includePath'' (JObj sec')
             = (if P = [] then None
                else Some (JArr (map JStr
                  (mergedPaths (\<lambda>p. path_resolve env (path_normalize env p)) [] P))))"
proof -
  have same: "map_of sec ''includePath'' = sectionField ''includePath'' s"
    using visitSection_other_field [OF v, of "''includePath''"] by (simp add: sectionField_def)
  show "\<forall>xs. sectionField ''includePath'' s = Some (JArr (map JStr xs)) \<longrightarrow>
      sectionField ''includePath'' (JObj sec')
        = Some (JArr (map JStr
            (mergedPaths (\<lambda>p. path_resolve env (path_normalize env p)) xs P)))"
  proof (intro allI impI)
    fix xs assume "sectionField ''includePath'' s = Some (JArr (map JStr xs))"
    with same have "map_of sec ''includePath'' = Some (JArr (map JStr xs))" by simp
    from mergeLibPaths_strings_field [OF this, of env P] m
    show "sectionField ''includePath'' (JObj sec')
        = Some (JArr (map JStr
            (mergedPaths (\<lambda>p. path_resolve env (path_normalize env p)) xs P)))"
      by (auto simp add: sectionField_def resolved_key)
  qed
  show "sectionField ''includePath'' s = None \<longrightarrow>
      sectionField ''includePath'' (JObj sec')
        = (if P = [] then None
           else Some (JArr (map JStr
             (mergedPaths (\<lambda>p. path_resolve env (path_normalize env p)) [] P))))"
  proof
    assume "sectionField ''includePath'' s = None"
    with same have none: "map_of sec ''includePath'' = None" by simp
    then have "map_of sec ''includePath'' = None \<or> map_of sec ''includePath'' = Some (JArr [])"
      by simp
    from mergeLibPaths_fresh [OF this, of env P] m none
    show "sectionField ''includePath'' (JObj sec')
        = (if P = [] then None
           else Some (JArr (map JStr
             (mergedPaths (\<lambda>p. path_resolve env (path_normalize env p)) [] P))))"
      by (auto simp add: sectionField_def resolved_key update_conv')
  qed
qed

lemma new_section_paths:
  assumes "mergeLibPaths env (newSection env) P = Inr sec'"
  shows "isPlatformSection env (JObj sec')"
    and "sectionField ''includePath'' (JObj sec')
           = Some (JArr (map JStr
               (mergedPaths (\<lambda>p. path_resolve env (path_normalize env p)) [] P)))"
proof -
  show "isPlatformSection env (JObj sec')"
    using mergeLibPaths_visit(2) [OF newSection_visit assms] .
  have "map_of (newSection env) ''includePath'' = Some (JArr (map JStr []))"
    by (simp add: newSection_def)
  from mergeLibPaths_strings_field [OF this, of env P] assms
  show "sectionField ''includePath'' (JObj sec')
      = Some (JArr (map JStr
          (mergedPaths (\<lambda>p. path_resolve env (path_normalize env p)) [] P)))"
    by (auto simp add: sectionField_def resolved_key)
qed

text \<open>
  Claim C9, amended: the last matching section, where the claim has the first. A
  successful run of lines 143 to 172 merges the candidates into exactly one section. When
  sections carry the platform's name, that section is the last of them: the array keeps
  its length, every other section keeps its \<^verbatim>\<open>includePath\<close>, a section without the
  platform's name is the same value as before, and the \<^verbatim>\<open>includePath\<close> of the last matching
  section is the merge of the spec's step 6 of its paths with the candidates. When no
  section carries the name, one new section with the name is appended and receives the
  candidates. So the number of sections with the platform's name only changes from zero to
  one: no second one is created.
\<close>

theorem reconcileSections_active_section:
  assumes "reconcileSections env P secs = Inr secs'"
  shows "(\<forall>i. i < length secs \<and> isPlatformSection env (secs ! i) \<and>
              (\<forall>j. i < j \<and> j < length secs \<longrightarrow> \<not> isPlatformSection env (secs ! j)) \<longrightarrow>
            length secs' = length secs \<and>
            (\<forall>j<length secs. j \<noteq> i \<longrightarrow>
               sectionField ''includePath'' (secs' ! j)
                 = sectionField ''includePath'' (secs ! j)) \<and>
            (\<forall>j<length secs. \<not> isPlatformSection env (secs ! j) \<longrightarrow> secs' ! j = secs ! j) \<and>
            (\<forall>xs. sectionField ''includePath'' (secs ! i) = Some (JArr (map JStr xs)) \<longrightarrow>
               sectionField ''includePath'' (secs' ! i)
                 = Some (JArr (map JStr
                     (mergedPaths (\<lambda>p. path_resolve env (path_normalize env p)) xs P)))) \<and>
            (sectionField ''includePath'' (secs ! i) = None \<longrightarrow>
               sectionField ''includePath'' (secs' ! i)
                 = (if P = [] then None
                    else Some (JArr (map JStr
                      (mergedPaths (\<lambda>p. path_resolve env (path_normalize env p)) [] P)))))) \<and>
         ((\<forall>s\<in>set secs. \<not> isPlatformSection env s) \<longrightarrow>
            (\<exists>new. secs' = secs @ [new] \<and> isPlatformSection env new \<and>
               sectionField ''includePath'' new
                 = Some (JArr (map JStr
                     (mergedPaths (\<lambda>p. path_resolve env (path_normalize env p)) [] P))))) \<and>
         length (filter (isPlatformSection env) secs')
           = max 1 (length (filter (isPlatformSection env) secs))"
proof (intro conjI allI impI)
  show "length (filter (isPlatformSection env) secs')
      = max 1 (length (filter (isPlatformSection env) secs))"
    using reconcileSections_count [OF assms] .
  show "\<exists>new. secs' = secs @ [new] \<and> isPlatformSection env new \<and>
      sectionField ''includePath'' new
        = Some (JArr (map JStr
            (mergedPaths (\<lambda>p. path_resolve env (path_normalize env p)) [] P)))"
    if "\<forall>s\<in>set secs. \<not> isPlatformSection env s"
  proof -
    from reconcileSections_none [OF assms that] obtain sec' where
      n: "mergeLibPaths env (newSection env) P = Inr sec'" "secs' = secs @ [JObj sec']"
      by blast
    from new_section_paths [OF n(1)] n(2) show ?thesis by blast
  qed
next
  fix i
  assume a: "i < length secs \<and> isPlatformSection env (secs ! i) \<and>
      (\<forall>j. i < j \<and> j < length secs \<longrightarrow> \<not> isPlatformSection env (secs ! j))"
  then have i: "i < length secs" "isPlatformSection env (secs ! i)"
    "\<forall>j. i < j \<and> j < length secs \<longrightarrow> \<not> isPlatformSection env (secs ! j)"
    by simp_all
  note l = reconcileSections_last [OF assms i]
  from l(2) obtain sec sec' where
    s: "visitSection env (secs ! i) = Inr (JObj sec)" "mergeLibPaths env sec P = Inr sec'"
      "secs' ! i = JObj sec'"
    by blast
  note p = active_section_paths [OF s(1,2)]
  show "length secs' = length secs" using l(1) .
  show "sectionField ''includePath'' (secs' ! i)
      = Some (JArr (map JStr
          (mergedPaths (\<lambda>p. path_resolve env (path_normalize env p)) xs P)))"
    if "sectionField ''includePath'' (secs ! i) = Some (JArr (map JStr xs))" for xs
    using p(1) that s(3) by simp
  show "sectionField ''includePath'' (secs' ! i)
      = (if P = [] then None
         else Some (JArr (map JStr
           (mergedPaths (\<lambda>p. path_resolve env (path_normalize env p)) [] P))))"
    if "sectionField ''includePath'' (secs ! i) = None"
    using p(2) that s(3) by simp
  show "sectionField ''includePath'' (secs' ! j) = sectionField ''includePath'' (secs ! j)"
    if "j < length secs" "j \<noteq> i" for j
    using visitSection_other_field [of env "secs ! j" "secs' ! j" "''includePath''"] l(3) that
    by simp
  show "secs' ! j = secs ! j" if "j < length secs" "\<not> isPlatformSection env (secs ! j)" for j
  proof -
    from that i(2) have "j \<noteq> i" by auto
    with l(3) that(1) have "visitSection env (secs ! j) = Inr (secs' ! j)" by simp
    from visitSection_cases [OF this] that(2) show ?thesis by auto
  qed
qed

theorem reconcileSections_active_section_witness:
  "reconcileSections (demoEnv [] None (Exited 0)) [''/x'']
      [platformSection [JStr ''/a''], platformSection [JStr ''/b'']]
     = Inr [platformSection [JStr ''/a''], platformSection [JStr ''/b'', JStr ''/x'']] \<and>
   length (filter (isPlatformSection (demoEnv [] None (Exited 0)))
      [platformSection [JStr ''/a''], platformSection [JStr ''/b'', JStr ''/x'']]) = 2 \<and>
   sectionField ''includePath''
      ([platformSection [JStr ''/a''], platformSection [JStr ''/b'', JStr ''/x'']] ! 0)
     = sectionField ''includePath''
         ([platformSection [JStr ''/a''], platformSection [JStr ''/b'']] ! 0)"
proof -
  let ?E = "demoEnv [] None (Exited 0)"
  let ?secs = "[platformSection [JStr ''/a''], platformSection [JStr ''/b'']]"
  let ?out = "[platformSection [JStr ''/a''], platformSection [JStr ''/b'', JStr ''/x'']]"
  have run: "reconcileSections ?E [''/x''] ?secs = Inr ?out"
    by (simp add: addLibPath_defs demo_defs)
  have p: "isPlatformSection ?E (platformSection ps)" for ps
    by (simp add: isPlatformSection_def platformSection_def demoEnv_def)
  note c = reconcileSections_active_section [OF run, THEN conjunct2, THEN conjunct2]
  have f: "sectionField ''includePath'' (?out ! 0) = sectionField ''includePath'' (?secs ! 0)"
    by (simp add: sectionField_def platformSection_def)
  have n: "length (filter (isPlatformSection ?E) ?secs) = 2"
    using p by simp
  from run c n f show ?thesis by simp
qed

section \<open>A platform section without include paths\<close>

lemma visitSection_succeeds:
  assumes "s \<noteq> JNull"
    and "\<forall>sec b. s = JObj sec \<and> isPlatformSection env s \<and>
           map_of sec ''browse'' = Some b \<and> truthy b \<longrightarrow>
           (\<exists>bs. b = JObj bs) \<or> (\<exists>xs. b = JArr xs)"
  shows "\<exists>s'. visitSection env s = Inr s'"
proof (cases s)
  case (JObj sec)
  show ?thesis
  proof (cases "isPlatformSection env s")
    case False
    with JObj show ?thesis by (simp add: visitSection_def)
  next
    case True
    have "\<exists>sec'. forceBrowse sec = Inr sec'"
    proof (cases "map_of sec ''browse''")
      case None
      then show ?thesis by (simp add: forceBrowse_def orDefault_def)
    next
      case (Some b)
      show ?thesis
      proof (cases "truthy b")
        case False
        with Some show ?thesis by (simp add: forceBrowse_def orDefault_def)
      next
        case t: True
        with assms(2) JObj True Some have "(\<exists>bs. b = JObj bs) \<or> (\<exists>xs. b = JArr xs)"
          by blast
        with Some show ?thesis by (auto simp add: forceBrowse_def orDefault_def)
      qed
    qed
    with JObj True show ?thesis by (auto simp add: visitSection_def)
  qed
qed (use assms(1) in \<open>simp_all add: visitSection_def\<close>)

lemma scanSections_succeeds:
  "\<forall>s\<in>set secs. \<exists>s'. visitSection env s = Inr s' \<Longrightarrow>
   \<exists>secs1. scanSections env secs = Inr (secs1, lastPlatformIndex env secs)"
proof (induction secs)
  case Nil
  then show ?case by simp
next
  case (Cons s secs)
  from Cons.prems obtain s' where s': "visitSection env s = Inr s'" by auto
  from Cons obtain secs1 where "scanSections env secs = Inr (secs1, lastPlatformIndex env secs)"
    by auto
  with s' show ?case by simp
qed

text \<open>
  Claim C10, as stated, fails twice. The platform section has no \<^verbatim>\<open>includePath\<close> and a
  section after it is \<^verbatim>\<open>null\<close>: \<^verbatim>\<open>addLibPath\<close> raises a type error at line 144 and writes
  nothing. And with no candidate at all (an empty argument and no board selected)
  \<^verbatim>\<open>addLibPath\<close> returns, and the section it writes still has no \<^verbatim>\<open>includePath\<close>.
\<close>

theorem missing_includePath_counterexample:
  "JSON_parse (demoEnv [(docNullSection, ''NULL''), (docBare, ''BARE''),
                        (docBareScanned, ''SCANNED'')] None (Exited 0)) ''NULL''
     = Some (JObj [(''configurations'', JArr [JObj [(''name'', JStr ''Linux'')], JNull])]) \<and>
   addLibPath (demoEnv [(docNullSection, ''NULL''), (docBare, ''BARE''),
                        (docBareScanned, ''SCANNED'')] None (Exited 0)) ''lib'' worldNullSection
     = (Threw TypeError, worldNullSection) \<and>
   JSON_parse (demoEnv [(docNullSection, ''NULL''), (docBare, ''BARE''),
                        (docBareScanned, ''SCANNED'')] None (Exited 0)) ''BARE''
     = Some (JObj [(''configurations'', JArr [JObj [(''name'', JStr ''Linux'')]])]) \<and>
   addLibPath (demoEnv [(docNullSection, ''NULL''), (docBare, ''BARE''),
                        (docBareScanned, ''SCANNED'')] None (Exited 0)) [] worldBare
     = (Returned,
        worldBare\<lparr>files := [''/w/.vscode/c_cpp_properties.json'' \<mapsto> ''SCANNED'']\<rparr>) \<and>
   JSON_parse (demoEnv [(docNullSection, ''NULL''), (docBare, ''BARE''),
                        (docBareScanned, ''SCANNED'')] None (Exited 0)) ''SCANNED''
     = Some (JObj [(''configurations'',
          JArr [JObj [(''name'', JStr ''Linux''),
                      (''browse'', JObj [(''limitSymbolsToIncludedHeaders'', JBool False)])]])])"
  by (simp add: addLibPath_defs demo_defs docNullSection_def docBare_def docBareScanned_def
      worldNullSection_def worldBare_def)

text \<open>
  Claim C10, amended. Take a configuration file that parses to an object whose
  \<^verbatim>\<open>configurations\<close> is an array in which no section is \<^verbatim>\<open>null\<close> and no section with the
  platform's name has a \<^verbatim>\<open>browse\<close> that is a number, a non-empty string or \<^verbatim>\<open>true\<close>. When
  the last section with the platform's name has no \<^verbatim>\<open>includePath\<close>, or an empty array,
  \<^verbatim>\<open>addLibPath\<close> returns normally and writes a document with the same number of sections
  in which, with at least one candidate, that section holds the array of the candidates in
  their resolved and normalised forms: each one exactly once, in the order of their first
  occurrence, a candidate being compared with the entries appended before it. With no
  candidate the \<^verbatim>\<open>includePath\<close> of the section is as it was. The other sections keep their
  \<^verbatim>\<open>includePath\<close>. Of the path functions the statement takes that resolving and
  normalising a path that was resolved and normalised changes nothing.
\<close>

theorem addLibPath_creates_includePath:
  assumes idem: "\<forall>p. path_resolve env (path_normalize env
                        (path_resolve env (path_normalize env p)))
                      = path_resolve env (path_normalize env p)"
    and cfile: "files w (configFilePath env) = Some text"
    and doc: "JSON_parse env text = Some (JObj doc)"
    and cfgs: "map_of doc ''configurations'' = Some (JArr secs)"
    and nonnull: "\<forall>s\<in>set secs. s \<noteq> JNull"
    and browse: "\<forall>sec b. JObj sec \<in> set secs \<and> isPlatformSection env (JObj sec) \<and>
                   map_of sec ''browse'' = Some b \<and> truthy b \<longrightarrow>
                   (\<exists>bs. b = JObj bs) \<or> (\<exists>xs. b = JArr xs)"
    and last: "i < length secs" "isPlatformSection env (secs ! i)"
      "\<forall>j. i < j \<and> j < length secs \<longrightarrow> \<not> isPlatformSection env (secs ! j)"
    and empty: "sectionField ''includePath'' (secs ! i) = None \<or>
                sectionField ''includePath'' (secs ! i) = Some (JArr [])"
  shows "\<exists>secs'.
           addLibPath env libraryPath w =
             (Returned,
              w\<lparr>files := (files w)(configFilePath env \<mapsto>
                    JSON_stringify env
                      (JObj (AList.update ''configurations'' (JArr secs') doc)))\<rparr>) \<and>
           length secs' = length secs \<and>
           sectionField ''includePath'' (secs' ! i) =
             (if libPathsFor env libraryPath w = []
              then sectionField ''includePath'' (secs ! i)
              else Some (JArr (map JStr
                     (mergedPaths (\<lambda>p. path_resolve env (path_normalize env p)) []
                        (libPathsFor env libraryPath w))))) \<and>
           (\<forall>j<length secs. j \<noteq> i \<longrightarrow>
              sectionField ''includePath'' (secs' ! j)
                = sectionField ''includePath'' (secs ! j)) \<and>
           distinct (mergedPaths (\<lambda>p. path_resolve env (path_normalize env p)) []
                       (libPathsFor env libraryPath w)) \<and>
           set (mergedPaths (\<lambda>p. path_resolve env (path_normalize env p)) []
                  (libPathsFor env libraryPath w))
             = (\<lambda>p. path_resolve env (path_normalize env p)) ` set (libPathsFor env libraryPath w)"
proof -
  let ?P = "libPathsFor env libraryPath w"
  let ?key = "\<lambda>p. path_resolve env (path_normalize env p)"
  have visits: "\<forall>s\<in>set secs. \<exists>s'. visitSection env s = Inr s'"
  proof
    fix s assume s: "s \<in> set secs"
    with nonnull have "s \<noteq> JNull" by simp
    moreover from browse s have "\<forall>sec b. s = JObj sec \<and> isPlatformSection env s \<and>
        map_of sec ''browse'' = Some b \<and> truthy b \<longrightarrow>
        (\<exists>bs. b = JObj bs) \<or> (\<exists>xs. b = JArr xs)"
      by blast
    ultimately show "\<exists>s'. visitSection env s = Inr s'"
      by (rule visitSection_succeeds)
  qed
  from scanSections_succeeds [OF visits] lastPlatformIndex_eqI [OF last]
  obtain secs1 where scan: "scanSections env secs = Inr (secs1, Some i)"
    by auto
  from scanSections_found(5) [OF scan] obtain sec0 sec where
    s: "secs ! i = JObj sec0" "secs1 ! i = JObj sec" "forceBrowse sec0 = Inr sec"
    by blast
  have v: "visitSection env (secs ! i) = Inr (JObj sec)"
    using scanSections_nth [OF scan last(1)] s(2) by simp
  have same: "map_of sec ''includePath'' = sectionField ''includePath'' (secs ! i)"
    using visitSection_other_field [OF v, of "''includePath''"] by (simp add: sectionField_def)
  with empty have e: "map_of sec ''includePath'' = None \<or>
      map_of sec ''includePath'' = Some (JArr [])"
    by simp
  let ?sec' = "if ?P = [] then sec
      else AList.update ''includePath'' (JArr (map JStr (mergedPaths (resolved env) [] ?P))) sec"
  have m: "mergeLibPaths env sec ?P = Inr ?sec'"
    using mergeLibPaths_fresh [OF e] .
  let ?secs' = "secs1[i := JObj ?sec']"
  have rs: "reconcileSections env ?P secs = Inr ?secs'"
    using reconcileSections_found [OF scan s(2), of ?P] m by simp
  have od: "orDefault (map_of doc ''configurations'') (JArr []) = JArr secs"
    using cfgs by (simp add: orDefault_def)
  have r: "reconcile env ?P (JObj doc)
      = Inr (JObj (AList.update ''configurations'' (JArr ?secs') doc))"
    using reconcile_object [OF od, of env ?P] rs by simp
  have a: "addLibPath env libraryPath w =
      (Returned,
       w\<lparr>files := (files w)(configFilePath env \<mapsto>
             JSON_stringify env (JObj (AList.update ''configurations'' (JArr ?secs') doc)))\<rparr>)"
    using addLibPath_parsed [OF cfile doc, of libraryPath] r by simp
  note l = reconcileSections_last [OF rs last]
  have len: "length ?secs' = length secs" using l(1) .
  have i1: "i < length secs1" using scanSections_found(2) [OF scan] last(1) by simp
  have field: "sectionField ''includePath'' (?secs' ! i) =
      (if ?P = [] then sectionField ''includePath'' (secs ! i)
       else Some (JArr (map JStr (mergedPaths ?key [] ?P))))"
    using i1 same by (simp add: sectionField_def update_conv' resolved_key)
  have others: "\<forall>j<length secs. j \<noteq> i \<longrightarrow>
      sectionField ''includePath'' (?secs' ! j) = sectionField ''includePath'' (secs ! j)"
  proof (intro allI impI)
    fix j assume j: "j < length secs" "j \<noteq> i"
    with l(3) have "visitSection env (secs ! j) = Inr (?secs' ! j)" by simp
    from visitSection_other_field [OF this, of "''includePath''"]
    show "sectionField ''includePath'' (?secs' ! j) = sectionField ''includePath'' (secs ! j)"
      by simp
  qed
  have c: "distinct (mergedPaths ?key [] ?P) \<and> set (mergedPaths ?key [] ?P) = ?key ` set ?P"
    using mergedPaths_canonical [of ?key "[]" ?P] idem by simp
  from a len field others c show ?thesis by blast
qed

theorem addLibPath_creates_includePath_witness:
  "files worldBare (configFilePath (demoEnv [(docBare, ''BARE''), (docBareMerged, ''MERGED'')] None (Exited 0)))
     = Some ''BARE'' \<and>
   JSON_parse (demoEnv [(docBare, ''BARE''), (docBareMerged, ''MERGED'')] None (Exited 0)) ''BARE''
     = Some docBare \<and>
   sectionField ''includePath'' (JObj [(''name'', JStr ''Linux'')]) = None \<and>
   addLibPath (demoEnv [(docBare, ''BARE''), (docBareMerged, ''MERGED'')] None (Exited 0))
      ''./lib'' worldBare
     = (Returned, worldBare\<lparr>files := [''/w/.vscode/c_cpp_properties.json'' \<mapsto> ''MERGED'']\<rparr>) \<and>
   JSON_stringify (demoEnv [(docBare, ''BARE''), (docBareMerged, ''MERGED'')] None (Exited 0))
      docBareMerged = ''MERGED''"
proof -
  let ?E = "demoEnv [(docBare, ''BARE''), (docBareMerged, ''MERGED'')] None (Exited 0)"
  let ?secs = "[JObj [(''name'', JStr ''Linux'')]]"
  have h1: "\<forall>p. path_resolve ?E (path_normalize ?E (path_resolve ?E (path_normalize ?E p)))
      = path_resolve ?E (path_normalize ?E p)"
    using demoEnv_resolved_idem [of "[(docBare, ''BARE''), (docBareMerged, ''MERGED'')]"
        None "Exited 0"]
    by (simp add: resolved_def)
  have h2: "files worldBare (configFilePath ?E) = Some ''BARE''"
    by (simp add: worldBare_def emptyWorld_def configFilePath_def demoEnv_def)
  have h3: "JSON_parse ?E ''BARE'' = Some (JObj [(''configurations'', JArr ?secs)])"
    by (simp add: demoEnv_def tableParse_def docBare_def)
  have h4: "map_of [(''configurations'', JArr ?secs)] ''configurations'' = Some (JArr ?secs)"
    by simp
  have h5: "\<forall>s\<in>set ?secs. s \<noteq> JNull"
    by simp
  have h6: "\<forall>sec b. JObj sec \<in> set ?secs \<and> isPlatformSection ?E (JObj sec) \<and>
      map_of sec ''browse'' = Some b \<and> truthy b \<longrightarrow>
      (\<exists>bs. b = JObj bs) \<or> (\<exists>xs. b = JArr xs)"
    by simp
  have h7: "0 < length ?secs" "isPlatformSection ?E (?secs ! 0)"
    "\<forall>j. 0 < j \<and> j < length ?secs \<longrightarrow> \<not> isPlatformSection ?E (?secs ! j)"
    by (auto simp add: isPlatformSection_def demoEnv_def)
  have h8: "sectionField ''includePath'' (?secs ! 0) = None \<or>
      sectionField ''includePath'' (?secs ! 0) = Some (JArr [])"
    by (simp add: sectionField_def)
  from addLibPath_creates_includePath [OF h1 h2 h3 h4 h5 h6 h7 h8, of "''./lib''"]
  have "fst (addLibPath ?E ''./lib'' worldBare) = Returned" by auto
  moreover have "addLibPath ?E ''./lib'' worldBare
      = (Returned, worldBare\<lparr>files := [''/w/.vscode/c_cpp_properties.json'' \<mapsto> ''MERGED'']\<rparr>)"
    by (simp add: addLibPath_defs demo_defs docBare_def docBareMerged_def worldBare_def)
  moreover have "JSON_stringify ?E docBareMerged = ''MERGED''"
    by (simp add: demoEnv_def tableStringify_def docBare_def docBareMerged_def)
  ultimately show ?thesis using h2 h3 by (simp add: docBare_def sectionField_def)
qed

section \<open>Running the toolchain\<close>

lemma trace_emit [simp]: "trace (emit evs w) = trace w @ evs"
  by (simp add: emit_def)

lemma newEvents_emit [simp]: "newEvents w (emit evs w) = evs"
  by (simp add: newEvents_def)

lemma emit_emit [simp]: "emit b (emit a w) = emit (a @ b) w"
  by (simp add: emit_def)

lemma spawn_failure:
  assumes "failureCode (runProcess env command args) = Some code"
  shows "spawn env command ch args w
       = (Rejected (ProcessFailure code), emit [Spawn command ch args] w)"
  using assms
  by (cases "runProcess env command args")
     (auto simp add: spawn_def failureCode_def split: if_splits)

lemma spawn_cases:
  "spawn env command ch args w = (Resolved, emit [Spawn command ch args] w) \<or>
   (\<exists>code. spawn env command ch args w
      = (Rejected (ProcessFailure code), emit [Spawn command ch args] w))"
  by (cases "runProcess env command args") (auto simp add: spawn_def)

lemma boardDescriptor_nonempty:
  "currentBoard env = Some b \<Longrightarrow>
   \<exists>d. d \<noteq> [] \<and> getBoardDescriptorString env w = (Some d, w)"
  by (simp add: getBoardDescriptorString_def)

text \<open>
  Claim C5. With no board selected, \<^verbatim>\<open>getBoardDescriptorString\<close> gives no target string
  and shows the user the error \<^verbatim>\<open>getBoardDescriptorError\<close> with the message that no board
  is selected; \<^verbatim>\<open>verify\<close> and \<^verbatim>\<open>upload\<close> then return normally, and that notification
  is all that has happened: no process was started.
\<close>

theorem no_board_selected:
  assumes "currentBoard env = None"
  shows "getBoardDescriptorString env w =
           (None, emit [NotifyUserError ''getBoardDescriptorError'' (NO_BOARD_SELECTED env)] w) \<and>
         verify env w =
           (Resolved, emit [NotifyUserError ''getBoardDescriptorError'' (NO_BOARD_SELECTED env)] w) \<and>
         upload env w =
           (Resolved, emit [NotifyUserError ''getBoardDescriptorError'' (NO_BOARD_SELECTED env)] w) \<and>
         filter isSpawn (newEvents w (snd (verify env w))) = [] \<and>
         filter isSpawn (newEvents w (snd (upload env w))) = []"
  using assms
  by (simp add: getBoardDescriptorString_def verify_def upload_def isSpawn_def)

theorem no_board_selected_witness:
  "currentBoard (demoEnv [] None (Exited 0)) = None \<and>
   verify (demoEnv [] None (Exited 0)) emptyWorld =
     (Resolved, emptyWorld\<lparr>trace :=
        [NotifyUserError ''getBoardDescriptorError'' ''no board selected'']\<rparr>) \<and>
   upload (demoEnv [] None (Exited 0)) emptyWorld =
     (Resolved, emptyWorld\<lparr>trace :=
        [NotifyUserError ''getBoardDescriptorError'' ''no board selected'']\<rparr>)"
proof -
  have h: "currentBoard (demoEnv [] None (Exited 0)) = None"
    by (simp add: demoEnv_def)
  have e: "emit [NotifyUserError ''getBoardDescriptorError''
                   (NO_BOARD_SELECTED (demoEnv [] None (Exited 0)))] emptyWorld
      = emptyWorld\<lparr>trace := [NotifyUserError ''getBoardDescriptorError'' ''no board selected'']\<rparr>"
    by (simp add: emit_def demoEnv_def emptyWorld_def)
  from no_board_selected [OF h, of emptyWorld] h e show ?thesis by simp
qed

text \<open>
  Claim C6, as stated, fails for \<^verbatim>\<open>verify\<close>: the process exits with code 1 and the
  operation resolves, the code being written to the error channel.
\<close>

theorem verify_swallows_failure_counterexample:
  "runProcess (demoEnv [] (Some unoBoard) (Exited 1)) ''/opt/arduino/arduino''
      [''--verify'', ''--board'', ''arduino:avr:uno'', ''--port'', ''/dev/ttyUSB0'', ''/w/app.ino'']
     = Exited 1 \<and>
   verify (demoEnv [] (Some unoBoard) (Exited 1)) emptyWorld =
     (Resolved,
      emptyWorld\<lparr>trace :=
        [ChannelStart ''Verify sketch - app.ino'', ChannelShow,
         Spawn ''/opt/arduino/arduino'' True
           [''--verify'', ''--board'', ''arduino:avr:uno'', ''--port'', ''/dev/ttyUSB0'',
            ''/w/app.ino''],
         ChannelError (''Exit with code=1'' @ [CHR 0x0A])]\<rparr>)"
  by (simp add: verify_def getBoardDescriptorString_def spawn_def toolArgs_def reasonCode_def
      showInt_def showNat.simps emit_def demoEnv_def unoBoard_def emptyWorld_def Let_def)

lemma failing_installBoard:
  assumes "failureCode (runProcess env (commandPath env)
             [''--install-boards'', package @ '':'' @ arch @ versionSuffix version]) = Some code"
  shows "installBoard env package arch version showOutput w =
           (Rejected (ProcessFailure code),
            emit [ChannelShow, ChannelStart (''Install package - '' @ package @ ''...''),
                  Spawn (commandPath env) showOutput
                    [''--install-boards'', package @ '':'' @ arch @ versionSuffix version]] w)"
  using assms by (simp add: installBoard_def Let_def spawn_failure)

lemma failing_installLibrary:
  assumes "failureCode (runProcess env (commandPath env)
             [''--install-library'', libName @ versionSuffix version]) = Some code"
  shows "installLibrary env libName version showOutput w =
           (Rejected (ProcessFailure code),
            emit [ChannelShow, ChannelStart (''Install library - '' @ libName),
                  Spawn (commandPath env) showOutput
                    [''--install-library'', libName @ versionSuffix version]] w)"
  using assms by (simp add: installLibrary_def Let_def spawn_failure)

lemma failing_verify:
  assumes "currentBoard env = Some b"
    and "failureCode (runProcess env (commandPath env)
           (toolArgs env ''--verify''
              (packageName b @ '':'' @ architecture b @ '':'' @ boardId b))) = Some code"
  shows "verify env w =
           (Resolved,
            emit [ChannelStart (''Verify sketch - '' @ sketch env), ChannelShow,
                  Spawn (commandPath env) True
                    (toolArgs env ''--verify''
                       (packageName b @ '':'' @ architecture b @ '':'' @ boardId b)),
                  ChannelError (''Exit with code='' @ showInt code @ EOL env)] w)"
  using assms
  by (simp add: verify_def getBoardDescriptorString_def Let_def spawn_failure reasonCode_def)

lemma failing_upload:
  assumes "currentBoard env = Some b"
    and "commandFailure env ''arduino.closeSerialMonitor'' (port env) = None"
    and "failureCode (runProcess env (commandPath env)
           (toolArgs env ''--upload''
              (packageName b @ '':'' @ architecture b @ '':'' @ boardId b))) = Some code"
  shows "upload env w =
           (Resolved,
            emit [ChannelShow, ChannelStart (''Upload sketch - '' @ sketch env),
                  ExecuteCommand ''arduino.closeSerialMonitor'' (port env),
                  CommandCompleted ''arduino.closeSerialMonitor'' (port env),
                  Spawn (commandPath env) True
                    (toolArgs env ''--upload''
                       (packageName b @ '':'' @ architecture b @ '':'' @ boardId b)),
                  ChannelError (''Exit with code='' @ showInt code @ EOL env)] w)"
  using assms
  by (simp add: upload_def getBoardDescriptorString_def Let_def executeCommand_def
      spawn_failure reasonCode_def)

text \<open>
  Claim C6, amended. Each operation is taken with the failure of the process on its own
  command line: a non-zero exit code or a failure to launch. \<^verbatim>\<open>installBoard\<close> and
  \<^verbatim>\<open>installLibrary\<close>, whether a board is selected or not, are then rejected with that
  code, which reaches the caller. \<^verbatim>\<open>verify\<close> and \<^verbatim>\<open>upload\<close>, with a board selected (and, for
  \<^verbatim>\<open>upload\<close>, the serial monitor closed), handle the rejection themselves: the last thing
  they do is write the code to the error channel, and they resolve. The events of each
  operation are given in full: the process is started exactly once.
\<close>

theorem process_failure_outcomes:
  "(\<forall>code.
      failureCode (runProcess env (commandPath env)
        [''--install-boards'', package @ '':'' @ arch @ versionSuffix version]) = Some code \<longrightarrow>
      installBoard env package arch version showOutput w =
        (Rejected (ProcessFailure code),
         emit [ChannelShow, ChannelStart (''Install package - '' @ package @ ''...''),
               Spawn (commandPath env) showOutput
                 [''--install-boards'', package @ '':'' @ arch @ versionSuffix version]] w)) \<and>
   (\<forall>code.
      failureCode (runProcess env (commandPath env)
        [''--install-library'', libName @ versionSuffix version]) = Some code \<longrightarrow>
      installLibrary env libName version showOutput w =
        (Rejected (ProcessFailure code),
         emit [ChannelShow, ChannelStart (''Install library - '' @ libName),
               Spawn (commandPath env) showOutput
                 [''--install-library'', libName @ versionSuffix version]] w)) \<and>
   (\<forall>code b.
      currentBoard env = Some b \<and>
      failureCode (runProcess env (commandPath env)
        (toolArgs env ''--verify''
           (packageName b @ '':'' @ architecture b @ '':'' @ boardId b))) = Some code \<longrightarrow>
      verify env w =
        (Resolved,
         emit [ChannelStart (''Verify sketch - '' @ sketch env), ChannelShow,
               Spawn (commandPath env) True
                 (toolArgs env ''--verify''
                    (packageName b @ '':'' @ architecture b @ '':'' @ boardId b)),
               ChannelError (''Exit with code='' @ showInt code @ EOL env)] w)) \<and>
   (\<forall>code b.
      currentBoard env = Some b \<and>
      commandFailure env ''arduino.closeSerialMonitor'' (port env) = None \<and>
      failureCode (runProcess env (commandPath env)
        (toolArgs env ''--upload''
           (packageName b @ '':'' @ architecture b @ '':'' @ boardId b))) = Some code \<longrightarrow>
      upload env w =
        (Resolved,
         emit [ChannelShow, ChannelStart (''Upload sketch - '' @ sketch env),
               ExecuteCommand ''arduino.closeSerialMonitor'' (port env),
               CommandCompleted ''arduino.closeSerialMonitor'' (port env),
               Spawn (commandPath env) True
                 (toolArgs env ''--upload''
                    (packageName b @ '':'' @ architecture b @ '':'' @ boardId b)),
               ChannelError (''Exit with code='' @ showInt code @ EOL env)] w))"
  using failing_installBoard [of env package arch version _ showOutput w]
    failing_installLibrary [of env libName version _ showOutput w]
    failing_verify [of env _ _ w] failing_upload [of env _ _ w]
  by blast

theorem process_failure_outcomes_witness:
  "currentBoard (demoEnv [] None (LaunchFailed 2)) = None \<and>
   failureCode (runProcess (demoEnv [] None (LaunchFailed 2))
      (commandPath (demoEnv [] None (LaunchFailed 2)))
      [''--install-boards'', ''dummy:dummy'']) = Some 2 \<and>
   installBoard (demoEnv [] None (LaunchFailed 2)) ''dummy'' ''dummy'' [] False emptyWorld =
     (Rejected (ProcessFailure 2),
      emptyWorld\<lparr>trace :=
        [ChannelShow, ChannelStart ''Install package - dummy...'',
         Spawn ''/opt/arduino/arduino'' False [''--install-boards'', ''dummy:dummy'']]\<rparr>) \<and>
   installLibrary (demoEnv [] None (LaunchFailed 2)) ''Servo'' ''1.1.0'' True emptyWorld =
     (Rejected (ProcessFailure 2),
      emptyWorld\<lparr>trace :=
        [ChannelShow, ChannelStart ''Install library - Servo'',
         Spawn ''/opt/arduino/arduino'' True [''--install-library'', ''Servo:1.1.0'']]\<rparr>) \<and>
   fst (verify (demoEnv [] (Some unoBoard) (Exited 1)) emptyWorld) = Resolved \<and>
   fst (upload (demoEnv [] (Some unoBoard) (Exited 1)) emptyWorld) = Resolved \<and>
   trace (snd (upload (demoEnv [] (Some unoBoard) (Exited 1)) emptyWorld)) =
     [ChannelShow, ChannelStart ''Upload sketch - app.ino'',
      ExecuteCommand ''arduino.closeSerialMonitor'' ''/dev/ttyUSB0'',
      CommandCompleted ''arduino.closeSerialMonitor'' ''/dev/ttyUSB0'',
      Spawn ''/opt/arduino/arduino'' True
        [''--upload'', ''--board'', ''arduino:avr:uno'', ''--port'', ''/dev/ttyUSB0'',
         ''/w/app.ino''],
      ChannelError (''Exit with code=1'' @ [CHR 0x0A])]"
proof -
  let ?N = "demoEnv [] None (LaunchFailed 2)"
  let ?B = "demoEnv [] (Some unoBoard) (Exited 1)"
  have n: "currentBoard ?N = None"
    by (simp add: demoEnv_def)
  have f: "failureCode (runProcess ?N (commandPath ?N) args) = Some 2" for args
    by (simp add: demoEnv_def failureCode_def)
  have g: "failureCode (runProcess ?B (commandPath ?B) args) = Some 1" for args
    by (simp add: demoEnv_def failureCode_def)
  have b: "currentBoard ?B = Some unoBoard"
    "commandFailure ?B ''arduino.closeSerialMonitor'' (port ?B) = None"
    by (simp_all add: demoEnv_def)
  note t1 = process_failure_outcomes [where env = ?N and package = "''dummy''"
      and arch = "''dummy''" and version = "[]" and showOutput = False and w = emptyWorld]
  note t2 = process_failure_outcomes [where env = ?N and libName = "''Servo''"
      and version = "''1.1.0''" and showOutput = True and w = emptyWorld]
  note t3 = process_failure_outcomes [where env = ?B and w = emptyWorld]
  from t1 f have i1: "installBoard ?N ''dummy'' ''dummy'' [] False emptyWorld =
      (Rejected (ProcessFailure 2),
       emit [ChannelShow, ChannelStart (''Install package - '' @ ''dummy'' @ ''...''),
             Spawn (commandPath ?N) False
               [''--install-boards'', ''dummy'' @ '':'' @ ''dummy'' @ versionSuffix []]] emptyWorld)"
    by blast
  from t2 f have i2: "installLibrary ?N ''Servo'' ''1.1.0'' True emptyWorld =
      (Rejected (ProcessFailure 2),
       emit [ChannelShow, ChannelStart (''Install library - '' @ ''Servo''),
             Spawn (commandPath ?N) True
               [''--install-library'', ''Servo'' @ versionSuffix ''1.1.0'']] emptyWorld)"
    by blast
  from t3 g b have v: "verify ?B emptyWorld =
      (Resolved,
       emit [ChannelStart (''Verify sketch - '' @ sketch ?B), ChannelShow,
             Spawn (commandPath ?B) True
               (toolArgs ?B ''--verify''
                  (packageName unoBoard @ '':'' @ architecture unoBoard @ '':'' @
                   boardId unoBoard)),
             ChannelError (''Exit with code='' @ showInt 1 @ EOL ?B)] emptyWorld)"
    by blast
  from t3 g b have u: "upload ?B emptyWorld =
      (Resolved,
       emit [ChannelShow, ChannelStart (''Upload sketch - '' @ sketch ?B),
             ExecuteCommand ''arduino.closeSerialMonitor'' (port ?B),
             CommandCompleted ''arduino.closeSerialMonitor'' (port ?B),
             Spawn (commandPath ?B) True
               (toolArgs ?B ''--upload''
                  (packageName unoBoard @ '':'' @ architecture unoBoard @ '':'' @
                   boardId unoBoard)),
             ChannelError (''Exit with code='' @ showInt 1 @ EOL ?B)] emptyWorld)"
    by blast
  show ?thesis
    unfolding i1 i2 v u
    using n f [of "[''--install-boards'', ''dummy:dummy'']"]
    by (simp add: emit_def emptyWorld_def demoEnv_def unoBoard_def versionSuffix_def
        toolArgs_def showInt_def showNat.simps)
qed

lemma upload_events:
  "newEvents w (snd (upload env w)) = [NotifyUserError ''getBoardDescriptorError'' (NO_BOARD_SELECTED env)] \<or>
   newEvents w (snd (upload env w)) =
     [ChannelShow, ChannelStart (''Upload sketch - '' @ sketch env),
      ExecuteCommand ''arduino.closeSerialMonitor'' (port env)] \<or>
   (\<exists>d e. \<not> isSpawn e \<and> newEvents w (snd (upload env w)) =
     [ChannelShow, ChannelStart (''Upload sketch - '' @ sketch env),
      ExecuteCommand ''arduino.closeSerialMonitor'' (port env),
      CommandCompleted ''arduino.closeSerialMonitor'' (port env),
      Spawn (commandPath env) True (toolArgs env ''--upload'' d), e])"
proof (cases "currentBoard env")
  case None
  then show ?thesis by (simp add: upload_def getBoardDescriptorString_def)
next
  case (Some b)
  from boardDescriptor_nonempty [OF Some] obtain d where
    d: "d \<noteq> []" "getBoardDescriptorString env w = (Some d, w)" by blast
  show ?thesis
  proof (cases "commandFailure env ''arduino.closeSerialMonitor'' (port env)")
    case (Some msg)
    with d show ?thesis by (simp add: upload_def Let_def executeCommand_def)
  next
    case None
    let ?w3 = "emit [ChannelShow, ChannelStart (''Upload sketch - '' @ sketch env),
        ExecuteCommand ''arduino.closeSerialMonitor'' (port env),
        CommandCompleted ''arduino.closeSerialMonitor'' (port env)] w"
    from spawn_cases [of env "commandPath env" True "toolArgs env ''--upload'' d" ?w3]
    show ?thesis
    proof (elim disjE exE)
      assume "spawn env (commandPath env) True (toolArgs env ''--upload'' d) ?w3
          = (Resolved, emit [Spawn (commandPath env) True (toolArgs env ''--upload'' d)] ?w3)"
      with d None show ?thesis
        by (intro disjI2 exI [of _ d])
           (simp add: upload_def Let_def executeCommand_def isSpawn_def)
    next
      fix code
      assume "spawn env (commandPath env) True (toolArgs env ''--upload'' d) ?w3
          = (Rejected (ProcessFailure code),
             emit [Spawn (commandPath env) True (toolArgs env ''--upload'' d)] ?w3)"
      with d None show ?thesis
        by (intro disjI2 exI [of _ d])
           (simp add: upload_def Let_def executeCommand_def isSpawn_def)
    qed
  qed
qed

text \<open>
  Claim C8. In every run of \<^verbatim>\<open>upload\<close> that starts the toolchain process, the command
  \<^verbatim>\<open>arduino.closeSerialMonitor\<close> for the device's port has completed among the events
  that precede the start of the process, and the process is started once. The awaited
  command is modelled by its call and its completion, in this order, before anything that
  follows the \<^verbatim>\<open>await\<close>.
\<close>

theorem upload_closes_monitor_first:
  assumes "Spawn command ch args \<in> set (newEvents w (snd (upload env w)))"
  shows "CommandCompleted ''arduino.closeSerialMonitor'' (port env)
           \<in> set (takeWhile (\<lambda>e. \<not> isSpawn e) (newEvents w (snd (upload env w)))) \<and>
         length (filter isSpawn (newEvents w (snd (upload env w)))) = 1"
  using upload_events [of w env] assms
  by (elim disjE exE conjE) (simp_all add: isSpawn_def)

theorem upload_closes_monitor_first_witness:
  "Spawn ''/opt/arduino/arduino'' True
      [''--upload'', ''--board'', ''arduino:avr:uno'', ''--port'', ''/dev/ttyUSB0'', ''/w/app.ino'']
     \<in> set (newEvents emptyWorld (snd (upload (demoEnv [] (Some unoBoard) (Exited 0)) emptyWorld))) \<and>
   takeWhile (\<lambda>e. \<not> isSpawn e)
      (newEvents emptyWorld (snd (upload (demoEnv [] (Some unoBoard) (Exited 0)) emptyWorld)))
     = [ChannelShow, ChannelStart ''Upload sketch - app.ino'',
        ExecuteCommand ''arduino.closeSerialMonitor'' ''/dev/ttyUSB0'',
        CommandCompleted ''arduino.closeSerialMonitor'' ''/dev/ttyUSB0'']"
proof -
  let ?E = "demoEnv [] (Some unoBoard) (Exited 0)"
  have ev: "newEvents emptyWorld (snd (upload ?E emptyWorld)) =
      [ChannelShow, ChannelStart ''Upload sketch - app.ino'',
       ExecuteCommand ''arduino.closeSerialMonitor'' ''/dev/ttyUSB0'',
       CommandCompleted ''arduino.closeSerialMonitor'' ''/dev/ttyUSB0'',
       Spawn ''/opt/arduino/arduino'' True
         [''--upload'', ''--board'', ''arduino:avr:uno'', ''--port'', ''/dev/ttyUSB0'',
          ''/w/app.ino''],
       ChannelEnd (''Uploaded the sketch: app.ino'' @ [CHR 0x0A])]"
    by (simp add: upload_def getBoardDescriptorString_def executeCommand_def spawn_def
        toolArgs_def demoEnv_def unoBoard_def Let_def)
  then have h: "Spawn ''/opt/arduino/arduino'' True
      [''--upload'', ''--board'', ''arduino:avr:uno'', ''--port'', ''/dev/ttyUSB0'', ''/w/app.ino'']
     \<in> set (newEvents emptyWorld (snd (upload ?E emptyWorld)))"
    by simp
  from upload_closes_monitor_first [OF h] h ev show ?thesis
    by (simp add: isSpawn_def)
qed

section \<open>Preferences after a failed load\<close>

text \<open>
  Claim C7 asks that no access to the preferences gives an empty map when the file cannot
  be read. The first access does raise the error of the read. Line 245 has stored the empty
  map by then, so the second access finds the field set and returns the empty map.
\<close>

theorem preferences_empty_after_failed_load:
  "fst (preferences env
          (w\<lparr>cachedPreferences := None, files := (files w)(preferencesPath env := None)\<rparr>))
     = Inl (FsError (preferencesPath env)) \<and>
   fst (preferences env
          (snd (preferences env
             (w\<lparr>cachedPreferences := None,
                files := (files w)(preferencesPath env := None)\<rparr>))))
     = Inr (Some [])"
  by (simp add: preferences_def loadPreferences_def Let_def)

section \<open>The examples of the specification\<close>

text \<open>
  The preference document of the spec's section 8 parses to its two pairs, the comment
  line being skipped; and a reconciliation that starts from the empty document of a
  missing file gives one section for the platform with the supplied path.
\<close>

lemma preferences_example:
  "foldl addPreferenceLine []
     (splitLines (''FOO=bar'' @ [CHR 0x0A] @ ''# comment'' @ [CHR 0x0A] @ ''BAZ=1'' @ [CHR 0x0A]))
   = [(''FOO'', ''bar''), (''BAZ'', ''1'')]"
  by code_simp

lemma reconcile_missing_file_example:
  "reconcile (demoEnv [] None (Exited 0)) [''lib''] (JObj []) = Inr docLib"
  by (simp add: addLibPath_defs demo_defs)

end
